theory Spec2Isabelle
  imports Complex_Main
begin

section \<open>Circuit geometry: \<open>calculateDistance\<close> of the circuit-creation screen\<close>

text \<open>
  The circuit-creation screen keeps an array of \<open>{latitude, longitude}\<close> objects, in
  degrees, and computes the length of the drawn route with a \<open>for\<close> loop over the
  consecutive pairs, in the numbers of JavaScript: IEEE 754 binary64.
\<close>

subsection \<open>Numbers\<close>

text \<open>
  A number is the real value of a finite double, an infinity or \<open>NaN\<close>. The two zeros
  of IEEE 754 are one number here; \<open>calculateDistance\<close> cannot tell them apart: it
  divides by the literals 180 and 2 only, and the arguments it gives to \<open>atan2\<close> are
  square roots.
\<close>

datatype number = Fin real | PosInf | NegInf | NaN

text \<open>
  Rounding to the nearest double, ties to even. The doubles around \<open>x\<close> are the
  multiples of \<open>ulp x\<close>: 52 binary digits below the power of two at or below
  \<open>\<bar>x\<bar>\<close>, from \<open>2 powi (- 1022)\<close> on (below it the spacing stays
  \<open>2 powi (- 1074)\<close>). A result of magnitude \<open>2 ^ 1024\<close> or more is an infinity.
\<close>

definition binade :: "real \<Rightarrow> int" where
  "binade x = max (- 1022) \<lfloor>log 2 \<bar>x\<bar>\<rfloor>"

definition ulp :: "real \<Rightarrow> real" where
  "ulp x = 2 powi (binade x - 52)"

definition rne :: "real \<Rightarrow> int" where
  "rne y = (let r = round y in if of_int r - y = 1 / 2 \<and> odd r then r - 1 else r)"

definition rnd :: "real \<Rightarrow> number" where
  "rnd x =
     (if x = 0 then Fin 0
      else let y = of_int (rne (x / ulp x)) * ulp x
           in if \<bar>y\<bar> < 2 ^ 1024 then Fin y else if 0 < x then PosInf else NegInf)"

text \<open>A real is a double when rounding leaves it as it is.\<close>

definition double :: "real \<Rightarrow> bool" where
  "double y \<longleftrightarrow> rnd y = Fin y"

text \<open>
  The operators \<open>-x\<close>, \<open>x + y\<close>, \<open>x - y\<close> and \<open>x * y\<close>: the exact result, rounded,
  with the IEEE 754 rules for infinities and \<open>NaN\<close>. \<open>fdiv_lit x d\<close> is \<open>x / d\<close> for a
  positive literal \<open>d\<close>.
\<close>

fun fneg :: "number \<Rightarrow> number" where
  "fneg (Fin x) = Fin (- x)"
| "fneg PosInf = NegInf"
| "fneg NegInf = PosInf"
| "fneg NaN = NaN"

fun fadd :: "number \<Rightarrow> number \<Rightarrow> number" where
  "fadd (Fin x) (Fin y) = rnd (x + y)"
| "fadd NaN b = NaN"
| "fadd a NaN = NaN"
| "fadd PosInf NegInf = NaN"
| "fadd NegInf PosInf = NaN"
| "fadd PosInf b = PosInf"
| "fadd a PosInf = PosInf"
| "fadd NegInf b = NegInf"
| "fadd a NegInf = NegInf"

definition fsub :: "number \<Rightarrow> number \<Rightarrow> number" where
  "fsub a b = fadd a (fneg b)"

fun fmul :: "number \<Rightarrow> number \<Rightarrow> number" where
  "fmul (Fin x) (Fin y) = rnd (x * y)"
| "fmul NaN b = NaN"
| "fmul a NaN = NaN"
| "fmul (Fin x) PosInf = (if x = 0 then NaN else if 0 < x then PosInf else NegInf)"
| "fmul (Fin x) NegInf = (if x = 0 then NaN else if 0 < x then NegInf else PosInf)"
| "fmul PosInf (Fin y) = (if y = 0 then NaN else if 0 < y then PosInf else NegInf)"
| "fmul NegInf (Fin y) = (if y = 0 then NaN else if 0 < y then NegInf else PosInf)"
| "fmul PosInf PosInf = PosInf"
| "fmul PosInf NegInf = NegInf"
| "fmul NegInf PosInf = NegInf"
| "fmul NegInf NegInf = PosInf"

fun fdiv_lit :: "number \<Rightarrow> real \<Rightarrow> number" where
  "fdiv_lit (Fin x) d = rnd (x / d)"
| "fdiv_lit PosInf d = PosInf"
| "fdiv_lit NegInf d = NegInf"
| "fdiv_lit NaN d = NaN"

text \<open>\<open>Math.PI\<close> is the double nearest to \<open>pi\<close>, 3.141592653589793.\<close>

definition MathPI :: number where
  "MathPI = Fin (884279719003555 / 2 ^ 48)"

text \<open>
  \<open>Math.sin\<close>, \<open>Math.cos\<close>, \<open>Math.sqrt\<close> and \<open>Math.atan2\<close> belong to the engine, and
  the language lets it approximate them; they are a parameter of the model.
\<close>

record Math =
  Math_sin :: "number \<Rightarrow> number"
  Math_cos :: "number \<Rightarrow> number"
  Math_sqrt :: "number \<Rightarrow> number"
  Math_atan2 :: "number \<Rightarrow> number \<Rightarrow> number"

subsection \<open>The function\<close>

record coordinate =
  latitude :: number
  longitude :: number

text \<open>The body of the loop: the value \<open>R * c\<close> added to \<open>distance\<close> for one pair.\<close>

definition segment :: "Math \<Rightarrow> coordinate \<Rightarrow> coordinate \<Rightarrow> number" where
  "segment M p q =
     (let lat1 = latitude p; lon1 = longitude p;
          lat2 = latitude q; lon2 = longitude q;
          R = Fin 6371;
          dLat = fmul (fsub lat2 lat1) (fdiv_lit MathPI 180);
          dLon = fmul (fsub lon2 lon1) (fdiv_lit MathPI 180);
          a = fadd (fmul (Math_sin M (fdiv_lit dLat 2)) (Math_sin M (fdiv_lit dLat 2)))
                (fmul (fmul (fmul (Math_cos M (fmul lat1 (fdiv_lit MathPI 180)))
                                  (Math_cos M (fmul lat2 (fdiv_lit MathPI 180))))
                            (Math_sin M (fdiv_lit dLon 2)))
                      (Math_sin M (fdiv_lit dLon 2)));
          c = fmul (Fin 2) (Math_atan2 M (Math_sqrt M a) (Math_sqrt M (fsub (Fin 1) a)))
      in fmul R c)"

text \<open>
  \<open>for (let i = 0; i < coordinates.length - 1; i++) distance += ...\<close>: the loop with
  its counter \<open>i\<close> and its accumulator \<open>distance\<close>. The loop is only reached with at
  least two points, where \<open>coordinates.length - 1\<close> is the same number over \<open>nat\<close>.
\<close>

function distance_loop :: "Math \<Rightarrow> coordinate list \<Rightarrow> nat \<Rightarrow> number \<Rightarrow> number" where
  "distance_loop M coordinates i distance =
     (if i < length coordinates - 1
      then distance_loop M coordinates (i + 1)
             (fadd distance (segment M (coordinates ! i) (coordinates ! (i + 1))))
      else distance)"
  by pat_completeness auto
termination
  by (relation "measure (\<lambda>(M, coordinates, i, distance). length coordinates - i)") auto

declare distance_loop.simps [simp del]

definition calculateDistance :: "Math \<Rightarrow> coordinate list \<Rightarrow> number" where
  "calculateDistance M coordinates =
     (if length coordinates < 2 then Fin 0 else distance_loop M coordinates 0 (Fin 0))"

text \<open>The lengths of the segments of a route, in the order of the route.\<close>

fun segment_lengths :: "Math \<Rightarrow> coordinate list \<Rightarrow> number list" where
  "segment_lengths M (p # q # cs) = segment M p q # segment_lengths M (q # cs)"
| "segment_lengths M cs = []"

subsection \<open>The Math library of the examples\<close>

text \<open>
  The examples need the values of the library at the arguments their routes reach.
  \<open>sample_math\<close> is a correctly rounded library: each function returns the double
  nearest to the real function. At the arguments that the example routes reach, that
  double is written out in a table, so that the examples can be evaluated; it is also
  the double that the C library functions \<open>sin\<close>, \<open>cos\<close>, \<open>sqrt\<close> and \<open>atan2\<close> return
  there. The square root of a negative number and any function of \<open>NaN\<close> are \<open>NaN\<close>,
  as the language says. \<open>atan2\<close> is the angle of the point \<open>(x, y)\<close>, between \<open>- pi\<close>
  and \<open>pi\<close>.
\<close>

definition atan2 :: "real \<Rightarrow> real \<Rightarrow> real" where
  "atan2 y x =
     (if 0 < x then arctan (y / x)
      else if x < 0 then (if 0 \<le> y then arctan (y / x) + pi else arctan (y / x) - pi)
      else if 0 < y then pi / 2
      else if y < 0 then - (pi / 2)
      else 0)"

definition sin_table :: "(real \<times> real) list" where
  "sin_table =
     [(5030569068109113 / 2 ^ 59, 5030505218395169 / 2 ^ 59),
      (5030569068109113 / 2 ^ 58, 2515156836085391 / 2 ^ 57),
      (5030569068109113 / 2 ^ 55, 5014239404989977 / 2 ^ 55),
      (884279719003555 / 2 ^ 49, 1)]"

definition cos_table :: "(real \<times> real) list" where
  "cos_table =
     [(5030569068109113 / 2 ^ 55, 4459770905381437 / 2 ^ 52),
      (3772926801081835 / 2 ^ 52, 753374087364987 / 2 ^ 50),
      (7703058885542079 / 2 ^ 53, 1477313599247349 / 2 ^ 51),
      (8017469452298899 / 2 ^ 53, 2834207078628703 / 2 ^ 52)]"

definition sqrt_table :: "(real \<times> real) list" where
  "sqrt_table =
     [(2225394656381615 / 2 ^ 66, 395724938902337 / 2 ^ 56),
      (2809528471237169 / 2 ^ 65, 5030505218395169 / 2 ^ 59),
      (6198615908497341 / 2 ^ 64, 330222961467191 / 2 ^ 54),
      (9004172586816921 / 2 ^ 53, 4502842896813541 / 2 ^ 52),
      (9006513334704069 / 2 ^ 53, 9006856288192973 / 2 ^ 53),
      (2251731900029963 / 2 ^ 51, 4503531713203139 / 2 ^ 52)]"

definition atan2_table :: "((real \<times> real) \<times> real) list" where
  "atan2_table =
     [((395724938902337 / 2 ^ 56, 4503531713203139 / 2 ^ 52), 6331630849413221 / 2 ^ 60),
      ((5030505218395169 / 2 ^ 59, 9006856288192973 / 2 ^ 53), 5030569068109113 / 2 ^ 59),
      ((330222961467191 / 2 ^ 54, 4502842896813541 / 2 ^ 52), 5283863332343013 / 2 ^ 58)]"


definition sample_sin :: "number \<Rightarrow> number" where
  "sample_sin x =
     (case x of
        Fin a \<Rightarrow>
          (case map_of sin_table \<bar>a\<bar> of
             Some v \<Rightarrow> Fin (if a < 0 then - v else v)
           | None \<Rightarrow> rnd (sin a))
      | _ \<Rightarrow> NaN)"

definition sample_cos :: "number \<Rightarrow> number" where
  "sample_cos x =
     (case x of
        Fin a \<Rightarrow> (case map_of cos_table \<bar>a\<bar> of Some v \<Rightarrow> Fin v | None \<Rightarrow> rnd (cos a))
      | _ \<Rightarrow> NaN)"

definition sample_sqrt :: "number \<Rightarrow> number" where
  "sample_sqrt x =
     (case x of
        Fin a \<Rightarrow>
          (if a < 0 then NaN
           else case map_of sqrt_table a of Some v \<Rightarrow> Fin v | None \<Rightarrow> rnd (sqrt a))
      | PosInf \<Rightarrow> PosInf
      | _ \<Rightarrow> NaN)"

definition sample_atan2 :: "number \<Rightarrow> number \<Rightarrow> number" where
  "sample_atan2 y x =
     (if y = NaN \<or> x = NaN then NaN
      else case (y, x) of
        (Fin a, Fin b) \<Rightarrow>
          (case map_of atan2_table (a, b) of Some v \<Rightarrow> Fin v | None \<Rightarrow> rnd (atan2 a b))
      | (Fin a, PosInf) \<Rightarrow> Fin 0
      | (Fin a, NegInf) \<Rightarrow> rnd (if 0 \<le> a then pi else - pi)
      | (PosInf, Fin b) \<Rightarrow> rnd (pi / 2)
      | (NegInf, Fin b) \<Rightarrow> rnd (- (pi / 2))
      | (PosInf, PosInf) \<Rightarrow> rnd (pi / 4)
      | (PosInf, NegInf) \<Rightarrow> rnd (3 * pi / 4)
      | (NegInf, PosInf) \<Rightarrow> rnd (- (pi / 4))
      | (NegInf, NegInf) \<Rightarrow> rnd (- (3 * pi / 4)))"

definition sample_math :: Math where
  "sample_math =
     \<lparr>Math_sin = sample_sin, Math_cos = sample_cos, Math_sqrt = sample_sqrt,
      Math_atan2 = sample_atan2\<rparr>"

section \<open>The race-detail screen: one race session\<close>

text \<open>
  The screen \<open>RaceDetail\<close> holds the session of one user in one race: React state
  (\<open>race\<close>, \<open>circuit\<close>, \<open>leaderboard\<close>, \<open>loading\<close>, \<open>isRacing\<close>, \<open>raceStartTime\<close>),
  two references (\<open>socketRef\<close>, \<open>locationSubscription\<close>) and the handlers that change
  them. The model is a record of that state and one function for each handler. What a
  handler does to the outside (requests, socket traffic, alerts, the location provider) is
  appended to the field \<open>effects\<close>, in the order of the source; what the outside answers
  (responses, the permission dialog, \<open>Date.now()\<close>) is an argument of the function. An
  \<open>async\<close> handler is one function from the state before to the state after, except
  \<open>joinRace\<close>, which is split at its \<open>await\<close>, and \<open>startRacing\<close>, which is split
  at its \<open>await\<close> of \<open>watchPositionAsync\<close>. The display fields \<open>currentSpeed\<close> and
  \<open>currentTime\<close>, written by the location callback and by the 100 ms tick, are left out.
\<close>

datatype status = Waiting | Active | Completed

record race =
  race_id :: nat
  circuit_id :: nat
  creator_id :: nat
  status :: status
  participants :: "nat list"

record circuit =
  circuit_ident :: nat
  circuit_coordinates :: "coordinate list"
  circuit_distance :: number

record leaderboard_entry =
  entry_user :: nat
  final_time :: "number option"

datatype http_error = NotFound | TransportFailure

datatype effect =
    HttpGet_race
  | HttpGet_leaderboard
  | HttpGet_circuit nat
  | HttpPost_join
  | HttpPost_start
  | SocketOpen
  | Emit_join_race
  | Emit_finish_race number
  | RequestPermission
  | WatchPosition
  | RemoveSubscription nat
  | Alert string

text \<open>
  \<open>socketRef\<close> says whether the reference's \<open>current\<close> is set.
  \<open>locationSubscription\<close> is the handle of a position watch stored in the reference
  (\<open>None\<close> while nothing is stored); handles are numbers given by the location
  provider. \<open>pendingWatch\<close> counts the calls of \<open>watchPositionAsync\<close> that have not
  answered yet. \<open>user\<close> is \<open>user?.id\<close> of the authentication context (\<open>None\<close> when
  there is no user); it never changes.
\<close>

record session =
  race :: "race option"
  circuit :: "circuit option"
  leaderboard :: "leaderboard_entry list"
  loading :: bool
  isRacing :: bool
  raceStartTime :: "int option"
  socketRef :: bool
  locationSubscription :: "nat option"
  pendingWatch :: nat
  user :: "nat option"
  effects :: "effect list"

definition init :: "nat option \<Rightarrow> session" where
  "init u = \<lparr>race = None, circuit = None, leaderboard = [], loading = True,
             isRacing = False, raceStartTime = None, socketRef = False,
             locationSubscription = None, pendingWatch = 0, user = u, effects = []\<rparr>"

definition emit :: "effect list \<Rightarrow> session \<Rightarrow> session" where
  "emit es s = s\<lparr>effects := effects s @ es\<rparr>"

text \<open>The answers to the three requests of one \<open>loadRaceData\<close> call.\<close>

record load_responses =
  raceResponse :: "http_error + race"
  leaderboardResponse :: "http_error + leaderboard_entry list"
  circuitResponse :: "http_error + circuit"

text \<open>\<open>if (socketRef.current) return;\<close> then the socket is created and stored.\<close>

definition connectWebSocket :: "session \<Rightarrow> session" where
  "connectWebSocket s =
     (if socketRef s then s else (emit [SocketOpen] s)\<lparr>socketRef := True\<rparr>)"

text \<open>
  \<open>loadRaceData\<close>: the race and the leaderboard are requested together
  (\<open>Promise.all\<close>); when both arrive they are stored, and the circuit of the race is
  requested; when it arrives it is stored and the socket is connected for a waiting or
  active race. Any failure goes to the \<open>catch\<close> (an alert); \<open>finally\<close> clears
  \<open>loading\<close>.
\<close>

definition loadRaceData :: "load_responses \<Rightarrow> session \<Rightarrow> session" where
  "loadRaceData lr s =
     (let s1 = emit [HttpGet_race, HttpGet_leaderboard] s in
      case (raceResponse lr, leaderboardResponse lr) of
        (Inr r, Inr l) \<Rightarrow>
          (let s2 = emit [HttpGet_circuit (circuit_id r)]
                      (s1\<lparr>race := Some r, leaderboard := l\<rparr>) in
           case circuitResponse lr of
             Inr c \<Rightarrow>
               (let s3 = s2\<lparr>circuit := Some c\<rparr>;
                    s4 = (if status r = Active \<or> status r = Waiting
                          then connectWebSocket s3 else s3)
                in s4\<lparr>loading := False\<rparr>)
           | Inl e \<Rightarrow> (emit [Alert ''Failed to load race data''] s2)\<lparr>loading := False\<rparr>)
      | _ \<Rightarrow> (emit [Alert ''Failed to load race data''] s1)\<lparr>loading := False\<rparr>)"

text \<open>
  \<open>startRacing\<close>: asks for the location permission; without it an alert and nothing
  else; with it \<open>isRacing\<close> and \<open>raceStartTime = Date.now()\<close> are set and
  \<open>watchPositionAsync\<close> is called. The function stops there, at its \<open>await\<close>; when
  the provider answers with a handle, \<open>watchResolved\<close> stores it in
  \<open>locationSubscription.current\<close>, over whatever was stored before.
\<close>

definition startRacing :: "bool \<Rightarrow> int \<Rightarrow> session \<Rightarrow> session" where
  "startRacing granted now s =
     (let s1 = emit [RequestPermission] s in
      if \<not> granted then emit [Alert ''Permission Denied''] s1
      else (emit [WatchPosition] (s1\<lparr>isRacing := True, raceStartTime := Some now\<rparr>))
             \<lparr>pendingWatch := pendingWatch s + 1\<rparr>)"

definition watchResolved :: "nat \<Rightarrow> session \<Rightarrow> session" where
  "watchResolved h s =
     s\<lparr>locationSubscription := Some h, pendingWatch := pendingWatch s - 1\<rparr>"

text \<open>
  The handlers that \<open>connectWebSocket\<close> registers on the socket. The handler of
  \<open>race_started\<close> writes \<open>{...prev, status: 'active'}\<close> and calls \<open>startRacing()\<close>; it
  runs only on a socket, which exists only after \<open>setRace\<close>, so \<open>prev\<close> is a race.
\<close>

definition on_connect :: "session \<Rightarrow> session" where
  "on_connect s = emit [Emit_join_race] s"

definition on_race_started :: "bool \<Rightarrow> int \<Rightarrow> session \<Rightarrow> session" where
  "on_race_started granted now s =
     startRacing granted now
       ((emit [Alert ''Race Started!''] s)
          \<lparr>race := map_option (\<lambda>prev. prev\<lparr>status := Active\<rparr>) (race s)\<rparr>)"

definition on_participant_position :: "nat \<Rightarrow> session \<Rightarrow> session" where
  "on_participant_position uid s = s"

definition on_participant_finished :: "nat \<Rightarrow> load_responses \<Rightarrow> session \<Rightarrow> session" where
  "on_participant_finished uid lr s = loadRaceData lr s"

text \<open>
  \<open>joinRace\<close>: the part before the \<open>await\<close> sends the request and touches no state;
  the part after it alerts and, on success, reloads.
\<close>

definition joinRace_send :: "session \<Rightarrow> session" where
  "joinRace_send s = emit [HttpPost_join] s"

definition joinRace_resume :: "http_error + unit \<Rightarrow> load_responses \<Rightarrow> session \<Rightarrow> session" where
  "joinRace_resume resp lr s =
     (case resp of
        Inr _ \<Rightarrow> loadRaceData lr (emit [Alert ''You joined the race!''] s)
      | Inl e \<Rightarrow> emit [Alert ''Failed to join race''] s)"

definition joinRace :: "http_error + unit \<Rightarrow> load_responses \<Rightarrow> session \<Rightarrow> session" where
  "joinRace resp lr s = joinRace_resume resp lr (joinRace_send s)"

definition startRaceAsCreator :: "http_error + unit \<Rightarrow> session \<Rightarrow> session" where
  "startRaceAsCreator resp s =
     (let s1 = emit [HttpPost_start] s in
      case resp of
        Inr _ \<Rightarrow> s1
      | Inl e \<Rightarrow> emit [Alert ''Failed to start race''] s1)"

text \<open>
  The constant \<open>finalTime\<close> of \<open>finishRace\<close>,
  \<open>(Date.now() - (raceStartTime || 0)) / 1000\<close>, in doubles. \<open>Date.now()\<close> and the
  stored \<open>raceStartTime\<close> are whole numbers of milliseconds; \<open>||\<close> gives 0 for
  \<open>null\<close> and for 0.
\<close>

definition finalTime :: "int \<Rightarrow> int option \<Rightarrow> number" where
  "finalTime now start =
     fdiv_lit
       (fsub (Fin (of_int now))
          (Fin (of_int (case start of None \<Rightarrow> 0 | Some t \<Rightarrow> if t = 0 then 0 else t))))
       1000"

text \<open>
  \<open>finishRace\<close>: a confirmation dialog; on \<open>Finish\<close> the final time is sent on the
  socket if there is one, \<open>isRacing\<close> is cleared, \<open>remove()\<close> is called on the handle
  stored in \<open>locationSubscription.current\<close> if there is one (the reference keeps it),
  and the session reloads.
\<close>

definition finishRace :: "bool \<Rightarrow> int \<Rightarrow> load_responses \<Rightarrow> session \<Rightarrow> session" where
  "finishRace confirmed now lr s =
     (let s0 = emit [Alert ''Finish Race''] s in
      if \<not> confirmed then s0
      else
        (let s1 = (if socketRef s0
                   then emit [Emit_finish_race (finalTime now (raceStartTime s))] s0 else s0);
             s2 = s1\<lparr>isRacing := False\<rparr>;
             s3 = (case locationSubscription s2 of
                     Some h \<Rightarrow> emit [RemoveSubscription h] s2
                   | None \<Rightarrow> s2);
             s4 = emit [Alert ''Race Complete!''] s3
         in loadRaceData lr s4))"

text \<open>
  The 100 ms tick of the second \<open>useEffect\<close> runs while
  \<open>isRacing && raceStartTime\<close> holds.
\<close>

definition timerRunning :: "session \<Rightarrow> bool" where
  "timerRunning s =
     (isRacing s \<and> (case raceStartTime s of None \<Rightarrow> False | Some t \<Rightarrow> t \<noteq> 0))"

subsection \<open>What the screen renders\<close>

definition isCreator :: "race \<Rightarrow> nat option \<Rightarrow> bool" where
  "isCreator r u = (Some (creator_id r) = u)"

definition hasJoined :: "race \<Rightarrow> nat option \<Rightarrow> bool" where
  "hasJoined r u = (case u of None \<Rightarrow> False | Some i \<Rightarrow> i \<in> set (participants r))"

definition canStart :: "race \<Rightarrow> nat option \<Rightarrow> bool" where
  "canStart r u = (isCreator r u \<and> status r = Waiting \<and> length (participants r) > 0)"

datatype button = JoinRace | StartRace | BeginRacing | FinishRace

text \<open>
  The buttons of the \<open>actionButtons\<close> view, in their order. While \<open>loading\<close> the
  screen is a spinner, and without a race or a circuit it is the text
  \<open>Race not found\<close>: no button in either.
\<close>

definition buttons :: "session \<Rightarrow> button list" where
  "buttons s =
     (if loading s then []
      else case (race s, circuit s) of
        (Some r, Some c) \<Rightarrow>
          (if status r = Waiting \<and> \<not> hasJoined r (user s) then [JoinRace] else []) @
          (if canStart r (user s) then [StartRace] else []) @
          (if status r = Active \<and> hasJoined r (user s) \<and> \<not> isRacing s
           then [BeginRacing] else []) @
          (if isRacing s then [FinishRace] else [])
      | _ \<Rightarrow> [])"

datatype view = Spinner | RaceNotFound | RaceScreen status "button list"

definition render :: "session \<Rightarrow> view" where
  "render s =
     (if loading s then Spinner
      else case (race s, circuit s) of
        (Some r, Some c) \<Rightarrow> RaceScreen (status r) (buttons s)
      | _ \<Rightarrow> RaceNotFound)"

subsection \<open>Steps of a session\<close>

text \<open>
  What can happen to a mounted screen: an event on the socket (only a connected
  socket has handlers), a press on a button (only a rendered button can be pressed), or
  the answer to a pending call of \<open>watchPositionAsync\<close>. Each step carries what the
  outside answers during it.
\<close>

datatype action =
    Connected
  | RaceStarted bool int
  | ParticipantPosition nat
  | ParticipantFinished nat load_responses
  | TapJoin "http_error + unit" load_responses
  | TapStart "http_error + unit"
  | TapBeginRacing bool int
  | TapFinish bool int load_responses
  | WatchResolved nat

fun step :: "action \<Rightarrow> session \<Rightarrow> session" where
  "step Connected s = (if socketRef s then on_connect s else s)"
| "step (RaceStarted granted now) s =
     (if socketRef s then on_race_started granted now s else s)"
| "step (ParticipantPosition uid) s =
     (if socketRef s then on_participant_position uid s else s)"
| "step (ParticipantFinished uid lr) s =
     (if socketRef s then on_participant_finished uid lr s else s)"
| "step (TapJoin resp lr) s =
     (if JoinRace \<in> set (buttons s) then joinRace resp lr s else s)"
| "step (TapStart resp) s =
     (if StartRace \<in> set (buttons s) then startRaceAsCreator resp s else s)"
| "step (TapBeginRacing granted now) s =
     (if BeginRacing \<in> set (buttons s) then startRacing granted now s else s)"
| "step (TapFinish confirmed now lr) s =
     (if FinishRace \<in> set (buttons s) then finishRace confirmed now lr s else s)"
| "step (WatchResolved h) s =
     (if 0 < pendingWatch s then watchResolved h s else s)"

definition steps :: "action list \<Rightarrow> session \<Rightarrow> session" where
  "steps xs s = foldl (\<lambda>s x. step x s) s xs"

text \<open>
  A session: the screen is mounted for user \<open>u\<close>, the first \<open>useEffect\<close> calls
  \<open>loadRaceData\<close>, and then steps happen.
\<close>

definition run :: "nat option \<Rightarrow> load_responses \<Rightarrow> action list \<Rightarrow> session" where
  "run u lr0 xs = steps xs (loadRaceData lr0 (init u))"

text \<open>A press on \<open>Join Race\<close> up to the \<open>await\<close> of \<open>joinRace\<close>.\<close>

definition tapJoin_send :: "session \<Rightarrow> session" where
  "tapJoin_send s = (if JoinRace \<in> set (buttons s) then joinRace_send s else s)"

subsection \<open>The circuit-detail screen: \<open>createRace\<close>\<close>

text \<open>
  \<open>createRace\<close> sets \<open>creating\<close> before its request and clears it in \<open>finally\<close>; the
  button is \<open>disabled={creating}\<close>. The screen shows the button once a circuit is
  loaded.
\<close>

datatype circuit_effect = HttpPost_races nat | CircuitAlert string

record circuit_detail =
  cd_id :: nat
  cd_circuit :: "circuit option"
  cd_loading :: bool
  creating :: bool
  cd_effects :: "circuit_effect list"

definition createRace_send :: "circuit_detail \<Rightarrow> circuit_detail" where
  "createRace_send s =
     s\<lparr>creating := True, cd_effects := cd_effects s @ [HttpPost_races (cd_id s)]\<rparr>"

definition createRace_resume :: "http_error + nat \<Rightarrow> circuit_detail \<Rightarrow> circuit_detail" where
  "createRace_resume resp s =
     (case resp of
        Inr new_id \<Rightarrow> s\<lparr>cd_effects := cd_effects s @ [CircuitAlert ''Race created!''],
                       creating := False\<rparr>
      | Inl e \<Rightarrow> s\<lparr>cd_effects := cd_effects s @ [CircuitAlert ''Failed to create race''],
                   creating := False\<rparr>)"

definition tapCreateRace_send :: "circuit_detail \<Rightarrow> circuit_detail" where
  "tapCreateRace_send s =
     (if \<not> cd_loading s \<and> cd_circuit s \<noteq> None \<and> \<not> creating s
      then createRace_send s else s)"

subsection \<open>Reading the effects and the status\<close>

fun removals :: "effect list \<Rightarrow> nat list" where
  "removals [] = []"
| "removals (RemoveSubscription h # es) = h # removals es"
| "removals (e # es) = removals es"

fun final_times :: "effect list \<Rightarrow> number list" where
  "final_times [] = []"
| "final_times (Emit_finish_race t # es) = t # final_times es"
| "final_times (e # es) = final_times es"

definition local_status :: "session \<Rightarrow> status option" where
  "local_status s = map_option status (race s)"

fun rank :: "status \<Rightarrow> nat" where
  "rank Waiting = 0"
| "rank Active = 1"
| "rank Completed = 2"

definition socket_opens :: "effect list \<Rightarrow> nat" where
  "socket_opens es = count_list es SocketOpen"

definition srank :: "session \<Rightarrow> nat" where
  "srank s = (case race s of None \<Rightarrow> 0 | Some r \<Rightarrow> rank (status r))"

text \<open>
  Two conditions on what the outside delivers. A reload is \<open>fresh_enough\<close> when the
  race it fetches is not behind the status the session already shows. An action is
  \<open>orderly\<close> when its reload, if it has one, is fresh enough, and when a
  \<open>race_started\<close> event does not come to a session that already shows the race as
  completed.
\<close>

definition fresh_enough :: "session \<Rightarrow> load_responses \<Rightarrow> bool" where
  "fresh_enough s lr =
     (case raceResponse lr of Inr r \<Rightarrow> srank s \<le> rank (status r) | Inl e \<Rightarrow> True)"

fun orderly :: "action \<Rightarrow> session \<Rightarrow> bool" where
  "orderly (RaceStarted granted now) s = (local_status s \<noteq> Some Completed)"
| "orderly (ParticipantFinished uid lr) s = fresh_enough s lr"
| "orderly (TapJoin resp lr) s = fresh_enough s lr"
| "orderly (TapFinish confirmed now lr) s = fresh_enough s lr"
| "orderly x s = True"

fun orderly_from :: "session \<Rightarrow> action list \<Rightarrow> bool" where
  "orderly_from s [] = True"
| "orderly_from s (x # xs) = (orderly x s \<and> orderly_from (step x s) xs)"

subsection \<open>Sample data\<close>

text \<open>
  A race of circuit 4 created by user 5, and the three answers of a load that
  succeeds with that race, an empty leaderboard and the circuit.
\<close>

definition sample_race :: "status \<Rightarrow> nat list \<Rightarrow> race" where
  "sample_race st ps =
     \<lparr>race_id = 1, circuit_id = 4, creator_id = 5, status = st, participants = ps\<rparr>"

definition sample_circuit :: circuit where
  "sample_circuit =
     \<lparr>circuit_ident = 4,
      circuit_coordinates =
        [\<lparr>latitude = Fin 48, longitude = Fin 2\<rparr>, \<lparr>latitude = Fin 49, longitude = Fin 2\<rparr>],
      circuit_distance = Fin 111\<rparr>"

definition sample_load :: "status \<Rightarrow> nat list \<Rightarrow> load_responses" where
  "sample_load st ps =
     \<lparr>raceResponse = Inr (sample_race st ps), leaderboardResponse = Inr [],
      circuitResponse = Inr sample_circuit\<rparr>"

definition sample_detail :: circuit_detail where
  "sample_detail =
     \<lparr>cd_id = 4, cd_circuit = Some sample_circuit, cd_loading = False, creating = False,
      cd_effects = []\<rparr>"

text \<open>The socket was opened as often as \<open>socketRef\<close> says: once if set, never if not.\<close>

definition opened_once :: "session \<Rightarrow> bool" where
  "opened_once s = (socket_opens (effects s) = (if socketRef s then 1 else 0))"

text \<open>
  What holds of a session after its first load: the spinner is gone; a racing session
  has its socket and its start time; and a screen that shows a button, or waits for a
  position watch, has its socket.
\<close>

definition session_inv :: "session \<Rightarrow> bool" where
  "session_inv s =
     (\<not> loading s \<and>
      (isRacing s \<longrightarrow> socketRef s \<and> raceStartTime s \<noteq> None) \<and>
      (buttons s \<noteq> [] \<longrightarrow> socketRef s) \<and>
      (0 < pendingWatch s \<longrightarrow> socketRef s))"

section \<open>Lemmas on rounding\<close>

lemma rne_near: "\<bar>y - of_int n\<bar> < 1 / 2 \<Longrightarrow> rne y = n"
proof -
  assume a: "\<bar>y - of_int n\<bar> < 1 / 2"
  then have "of_int n \<le> y + 1 / 2" "y + 1 / 2 < of_int n + 1" by linarith+
  then have "round y = n" unfolding round_def by (rule floor_unique)
  moreover from a have "of_int n - y \<noteq> 1 / 2" by linarith
  ultimately show ?thesis by (simp add: rne_def Let_def)
qed

lemma rne_tie: "\<bar>y - of_int n\<bar> = 1 / 2 \<Longrightarrow> even n \<Longrightarrow> rne y = n"
proof -
  assume a: "\<bar>y - of_int n\<bar> = 1 / 2" and e: "even n"
  then consider "y = of_int n + 1 / 2" | "y = of_int n - 1 / 2"
    by (auto simp: abs_if split: if_splits)
  then show ?thesis
  proof cases
    case 1
    then have "round y = n + 1" unfolding round_def by (intro floor_unique) auto
    with 1 e show ?thesis by (auto simp: rne_def Let_def)
  next
    case 2
    then have "round y = n" unfolding round_def by (intro floor_unique) auto
    with 2 e show ?thesis by (auto simp: rne_def Let_def)
  qed
qed

lemma rne_cases:
  "\<bar>y - of_int (rne y)\<bar> < 1 / 2 \<or> (\<bar>y - of_int (rne y)\<bar> = 1 / 2 \<and> even (rne y))"
proof -
  define r where "r = round y"
  have b: "y - 1 / 2 < of_int r" "of_int r \<le> y + 1 / 2"
    unfolding r_def round_def by linarith+
  show ?thesis
  proof (cases "of_int r - y = 1 / 2")
    case True
    then show ?thesis by (cases "odd r") (auto simp: rne_def Let_def r_def [symmetric])
  next
    case False
    with b have "\<bar>y - of_int r\<bar> < 1 / 2" by linarith
    with False show ?thesis by (simp add: rne_def Let_def r_def [symmetric])
  qed
qed

lemma rne_minus: "rne (- y) = - rne y"
  using rne_cases [of y]
proof
  assume "\<bar>y - of_int (rne y)\<bar> < 1 / 2"
  then have "\<bar>- y - of_int (- rne y)\<bar> < 1 / 2" by (simp only: of_int_minus, linarith?)
  then show ?thesis by (rule rne_near)
next
  assume "\<bar>y - of_int (rne y)\<bar> = 1 / 2 \<and> even (rne y)"
  then have "\<bar>- y - of_int (- rne y)\<bar> = 1 / 2" "even (- rne y)"
    by (simp_all only: of_int_minus even_minus, linarith)
  then show ?thesis by (rule rne_tie)
qed

lemma rne_of_int [simp]: "rne (of_int n) = n"
  by (rule rne_near) simp

lemma ulp_minus [simp]: "ulp (- x) = ulp x"
  by (simp add: ulp_def binade_def)

lemma ulp_pos [simp]: "0 < ulp x"
  by (simp add: ulp_def)

lemma rnd_0 [simp]: "rnd 0 = Fin 0"
  by (simp add: rnd_def)

lemma rnd_minus: "rnd (- x) = fneg (rnd x)"
  by (simp add: rnd_def Let_def rne_minus)

lemma floor_log2: "x \<noteq> 0 \<Longrightarrow> 2 powi e \<le> \<bar>x\<bar> \<Longrightarrow> \<bar>x\<bar> < 2 powi (e + 1) \<Longrightarrow> \<lfloor>log 2 \<bar>x\<bar>\<rfloor> = e"
proof -
  assume a: "x \<noteq> 0" "2 powi e \<le> \<bar>x\<bar>" "\<bar>x\<bar> < 2 powi (e + 1)"
  have "(2::real) powr (of_int e) = 2 powi e" "(2::real) powr (of_int e + 1) = 2 powi (e + 1)"
    using powr_real_of_int' [of 2 e] powr_real_of_int' [of 2 "e + 1"] by simp_all
  with a floor_log_eq_powr_iff [of "\<bar>x\<bar>" 2 e] show ?thesis by simp
qed

lemma ulp_eval:
  "x \<noteq> 0 \<Longrightarrow> 2 powi e \<le> \<bar>x\<bar> \<Longrightarrow> \<bar>x\<bar> < 2 powi (e + 1) \<Longrightarrow> - 1022 \<le> e \<Longrightarrow>
   ulp x = 2 powi (e - 52)"
  by (simp add: ulp_def binade_def floor_log2)

lemma rnd_near:
  assumes "2 powi e \<le> \<bar>x\<bar>" "\<bar>x\<bar> < 2 powi (e + 1)" "- 1022 \<le> e" "e < 1023"
    and "y = of_int m * 2 powi (e - 52)" and "\<bar>x - y\<bar> < 2 powi (e - 53)"
  shows "rnd x = Fin y"
proof -
  have p: "0 < (2::real) powi e" by simp
  with assms(1) have x0: "x \<noteq> 0" by (cases "x = 0") simp_all
  have u: "ulp x = 2 powi (e - 52)" using x0 assms(1-3) by (rule ulp_eval)
  have h: "(2::real) powi (e - 53) = 2 powi (e - 52) / 2"
    by (simp add: power_int_diff)
  have "\<bar>x / 2 powi (e - 52) - of_int m\<bar> = \<bar>x - y\<bar> / 2 powi (e - 52)"
    unfolding assms(5) by (simp add: field_simps abs_divide flip: abs_mult)
  also have "\<dots> < 1 / 2" using assms(6) unfolding h by (simp add: field_simps)
  finally have "rne (x / ulp x) = m" unfolding u by (rule rne_near)
  then have y: "of_int (rne (x / ulp x)) * ulp x = y" by (simp add: u assms(5))
  have "\<bar>y\<bar> \<le> \<bar>x\<bar> + \<bar>x - y\<bar>" by linarith
  also have "\<dots> < 2 powi (e + 1) + 2 powi (e - 53)" using assms(2,6) by linarith
  also have "\<dots> \<le> 2 powi 1023 + 2 powi 1023"
    using assms(4) by (intro add_mono power_int_increasing) auto
  also have "\<dots> = 2 ^ 1024" by simp
  finally show ?thesis using x0 by (simp add: rnd_def Let_def y)
qed

lemma floor_log2_less:
  assumes "y \<noteq> 0" "\<bar>y\<bar> < 2 powi (e + 1)"
  shows "\<lfloor>log 2 \<bar>y\<bar>\<rfloor> \<le> e"
proof -
  have "(2::real) powr (of_int e + 1) = 2 powi (e + 1)"
    using powr_real_of_int' [of 2 "e + 1"] by simp
  with assms have "\<bar>y\<bar> < 2 powr (of_int e + 1)" by simp
  with assms(1) have "log 2 \<bar>y\<bar> < of_int e + 1" by (simp add: log_less_iff)
  then show ?thesis by linarith
qed

lemma binade_le: "y \<noteq> 0 \<Longrightarrow> \<bar>y\<bar> < 2 powi (e + 1) \<Longrightarrow> - 1022 \<le> e \<Longrightarrow> binade y \<le> e"
  using floor_log2_less [of y e] by (simp add: binade_def)

lemma binade_ge [simp]: "- 1022 \<le> binade x"
  by (simp add: binade_def)

lemma below_next_binade:
  assumes "x \<noteq> 0"
  shows "\<bar>x\<bar> < 2 powi (binade x + 1)"
proof -
  have "log 2 \<bar>x\<bar> < of_int \<lfloor>log 2 \<bar>x\<bar>\<rfloor> + 1" by linarith
  also have "\<dots> \<le> of_int (binade x) + 1" by (simp add: binade_def)
  finally have "\<bar>x\<bar> < 2 powr (of_int (binade x) + 1)"
    using assms by (simp add: log_less_iff)
  moreover have "(2::real) powr (of_int (binade x) + 1) = 2 powi (binade x + 1)"
    using powr_real_of_int' [of 2 "binade x + 1"] by simp
  ultimately show ?thesis by simp
qed

lemma above_binade:
  assumes "x \<noteq> 0" "- 1022 < binade x"
  shows "2 powi (binade x) \<le> \<bar>x\<bar>"
proof -
  from assms(2) have b: "binade x = \<lfloor>log 2 \<bar>x\<bar>\<rfloor>" by (simp add: binade_def max_def split: if_splits)
  have "of_int (binade x) \<le> log 2 \<bar>x\<bar>" unfolding b by linarith
  then have "2 powr (of_int (binade x)) \<le> \<bar>x\<bar>" using assms(1) by (simp add: powr_le_iff)
  moreover have "(2::real) powr (of_int (binade x)) = 2 powi (binade x)"
    using powr_real_of_int' [of 2 "binade x"] by simp
  ultimately show ?thesis by simp
qed

text \<open>The rounded value, as a multiple of the unit in the last place.\<close>

lemma rne_bound:
  assumes "\<bar>t\<bar> < 2 ^ 53"
  shows "\<bar>rne t\<bar> \<le> 2 ^ 53"
proof -
  from rne_cases [of t] have "\<bar>t - of_int (rne t)\<bar> \<le> 1 / 2" by auto
  with assms have "\<bar>real_of_int (rne t)\<bar> < 2 ^ 53 + 1" by linarith
  then have "real_of_int \<bar>rne t\<bar> < real_of_int (2 ^ 53 + 1)" by simp
  then have "\<bar>rne t\<bar> < 2 ^ 53 + 1" by (simp only: of_int_less_iff)
  then show ?thesis by simp
qed

lemma scaled_below:
  assumes "x \<noteq> 0"
  shows "\<bar>x / ulp x\<bar> < 2 ^ 53"
proof -
  have "\<bar>x / ulp x\<bar> = \<bar>x\<bar> / 2 powi (binade x - 52)" by (simp add: ulp_def)
  also have "\<dots> < 2 powi (binade x + 1) / 2 powi (binade x - 52)"
    using below_next_binade [OF assms] by (simp add: divide_strict_right_mono)
  also have "\<dots> = 2 powi 53" by (simp flip: power_int_diff)
  finally show ?thesis by simp
qed

lemma two_53_ulp: "(2::real) ^ 53 * 2 powi (b - 52) = 2 powi (b + 1)"
proof -
  have "(2::real) powi 53 * 2 powi (b - 52) = 2 powi (53 + (b - 52))"
    by (rule power_int_add [symmetric]) simp
  then show ?thesis by (simp add: add.commute)
qed

lemma multiple_is_double:
  assumes "y = of_int n * 2 powi (b - 52)" "\<bar>n\<bar> \<le> 2 ^ 53" "- 1022 \<le> b" "\<bar>y\<bar> < 2 ^ 1024"
  shows "double y"
proof (cases "y = 0")
  case True
  then show ?thesis by (simp add: double_def)
next
  case False
  define c where "c = binade y"
  have n0: "n \<noteq> 0" using False assms(1) by auto
  have "\<bar>y\<bar> = of_int \<bar>n\<bar> * 2 powi (b - 52)" by (simp add: assms(1) abs_mult)
  also have "\<dots> \<le> 2 ^ 53 * 2 powi (b - 52)"
  proof (intro mult_right_mono)
    from assms(2) have "real_of_int \<bar>n\<bar> \<le> real_of_int (2 ^ 53)" by (simp only: of_int_le_iff)
    then show "real_of_int \<bar>n\<bar> \<le> 2 ^ 53" by simp
  qed simp
  also have "\<dots> = 2 powi (b + 1)"
    by (rule two_53_ulp)
  finally have up: "\<bar>y\<bar> \<le> 2 powi (b + 1)" .
  have "(2::real) powi (b + 1) < 2 powi (b + 1 + 1)" by (intro power_int_strict_increasing) auto
  with up have "\<bar>y\<bar> < 2 powi (b + 1 + 1)" by linarith
  with False have c1: "c \<le> b + 1" unfolding c_def using assms(3) by (intro binade_le) auto
  have int: "\<exists>k. y / 2 powi (c - 52) = of_int k"
  proof (cases "c \<le> b")
    case True
    then obtain d where d: "b - c = int d" using nonneg_int_cases [of "b - c"] by auto
    have "y / 2 powi (c - 52) = of_int n * (2 powi (b - 52) / 2 powi (c - 52))"
      by (simp add: assms(1))
    also have "2 powi (b - 52) / 2 powi (c - 52) = (2::real) powi (b - c)"
      by (simp flip: power_int_diff)
    also have "\<dots> = 2 ^ d" by (simp add: d)
    finally have "y / 2 powi (c - 52) = of_int (n * 2 ^ d)" by simp
    then show ?thesis ..
  next
    case False
    with c1 have cb: "c = b + 1" by simp
    then have "- 1022 < binade y" using assms(3) by (simp add: c_def)
    from above_binade [OF \<open>y \<noteq> 0\<close> this] have "2 powi (b + 1) \<le> \<bar>y\<bar>" by (simp add: c_def [symmetric] cb)
    with up have "\<bar>y\<bar> = 2 powi (b + 1)" by simp
    then have "\<bar>y\<bar> / 2 powi (c - 52) = 2 powi (b + 1) / 2 powi (b + 1 - 52)" by (simp add: cb)
    also have "\<dots> = 2 powi 52" by (simp flip: power_int_diff)
    finally have a: "\<bar>y / 2 powi (c - 52)\<bar> = 2 ^ 52" by simp
    show ?thesis
    proof (cases "0 \<le> y")
      case True
      with a have "y / 2 powi (c - 52) = of_int (2 ^ 52)" by simp
      then show ?thesis ..
    next
      case False
      then have "y / 2 powi (c - 52) < 0" by (simp add: divide_neg_pos)
      with a have "y / 2 powi (c - 52) = of_int (- (2 ^ 52))" by simp
      then show ?thesis ..
    qed
  qed
  then obtain k where k: "y / 2 powi (c - 52) = of_int k" ..
  have "ulp y = 2 powi (c - 52)" by (simp add: ulp_def c_def)
  moreover from k have "of_int k * 2 powi (c - 52) = y" by (simp add: field_simps)
  ultimately have "of_int (rne (y / ulp y)) * ulp y = y" using k by simp
  with \<open>y \<noteq> 0\<close> assms(4) show ?thesis by (simp add: double_def rnd_def Let_def)
qed

lemma rnd_double: "rnd x = Fin y \<Longrightarrow> double y"
proof (cases "x = 0")
  case True
  assume "rnd x = Fin y"
  with True show ?thesis by (simp add: double_def)
next
  case False
  assume r: "rnd x = Fin y"
  define n where "n = rne (x / ulp x)"
  from r False have y: "y = of_int n * ulp x" and lt: "\<bar>y\<bar> < 2 ^ 1024"
    by (simp_all add: rnd_def Let_def n_def split: if_splits)
  have "\<bar>n\<bar> \<le> 2 ^ 53" unfolding n_def by (intro rne_bound scaled_below False)
  then show ?thesis
    using y lt by (intro multiple_is_double [where n = n and b = "binade x"]) (simp_all add: ulp_def)
qed

lemma rnd_Fin:
  assumes "\<bar>x\<bar> < 2 powi 1023"
  shows "\<exists>y. rnd x = Fin y"
proof (cases "x = 0")
  case True
  then show ?thesis by simp
next
  case False
  define n where "n = rne (x / ulp x)"
  have b: "binade x \<le> 1022" using False assms by (intro binade_le) auto
  have "\<bar>n\<bar> \<le> 2 ^ 53" unfolding n_def by (intro rne_bound scaled_below False)
  then have "real_of_int \<bar>n\<bar> \<le> real_of_int (2 ^ 53)" by (simp only: of_int_le_iff)
  then have "\<bar>of_int n * ulp x\<bar> \<le> 2 ^ 53 * 2 powi (binade x - 52)"
    by (simp add: abs_mult ulp_def mult_right_mono)
  also have "\<dots> = 2 powi (binade x + 1)"
    by (rule two_53_ulp)
  also have "\<dots> \<le> 2 powi 1023" using b by (intro power_int_increasing) auto
  also have "\<dots> < 2 ^ 1024" by simp
  finally show ?thesis using False by (simp add: rnd_def Let_def n_def)
qed

lemma rnd_int: "\<bar>n\<bar> \<le> 2 ^ 53 \<Longrightarrow> rnd (of_int n) = Fin (of_int n)"
proof -
  assume a: "\<bar>n\<bar> \<le> 2 ^ 53"
  then have "\<bar>real_of_int n\<bar> \<le> 2 ^ 53"
    by (metis of_int_abs of_int_le_iff of_int_numeral of_int_power)
  then have "\<bar>real_of_int n\<bar> < 2 ^ 1024" by (rule le_less_trans) simp
  with a have "double (of_int n)"
    by (intro multiple_is_double [where n = n and b = 52]) simp_all
  then show ?thesis by (simp add: double_def)
qed

lemma rnd_error:
  assumes "x \<noteq> 0" "\<bar>x\<bar> < 2 powi 1023"
  shows "\<exists>y. rnd x = Fin y \<and> \<bar>y - x\<bar> \<le> ulp x / 2"
proof -
  from rnd_Fin [OF assms(2)] obtain y where y: "rnd x = Fin y" by blast
  define y0 where "y0 = of_int (rne (x / ulp x)) * ulp x"
  from y assms(1) have "y = y0"
    by (simp add: rnd_def Let_def y0_def split: if_splits)
  moreover have "\<bar>y0 - x\<bar> \<le> ulp x / 2"
  proof -
    have "ulp x \<noteq> 0" by (metis ulp_pos less_irrefl)
    then have "y0 - x = (of_int (rne (x / ulp x)) - x / ulp x) * ulp x"
      by (simp add: y0_def algebra_simps)
    then have "\<bar>y0 - x\<bar> = \<bar>x / ulp x - of_int (rne (x / ulp x))\<bar> * ulp x"
      by (simp add: abs_mult abs_minus_commute abs_of_pos)
    also have "\<dots> \<le> (1 / 2) * ulp x"
      using rne_cases [of "x / ulp x"] ulp_pos [of x, THEN less_imp_le]
      by (intro mult_right_mono) auto
    finally show ?thesis by simp
  qed
  ultimately show ?thesis using y by blast
qed

lemma ulp_le:
  assumes "2 powi (- 1022) \<le> \<bar>x\<bar>"
  shows "ulp x \<le> \<bar>x\<bar> / 2 ^ 52"
proof -
  have x0: "x \<noteq> 0" using assms by (cases "x = 0") simp_all
  have "2 powi (binade x) \<le> \<bar>x\<bar>"
  proof (cases "- 1022 < binade x")
    case True
    then show ?thesis using above_binade [OF x0] by simp
  next
    case False
    then have "binade x = - 1022" using binade_ge [of x] by linarith
    with assms show ?thesis by simp
  qed
  moreover have "ulp x = 2 powi (binade x) / 2 ^ 52"
    by (simp add: ulp_def power_int_diff)
  ultimately show ?thesis by (simp add: divide_right_mono)
qed

lemma rnd_relative:
  assumes "2 powi (- 1022) \<le> \<bar>x\<bar>" "\<bar>x\<bar> < 2 powi 1023"
  shows "\<exists>y. rnd x = Fin y \<and> \<bar>y - x\<bar> \<le> \<bar>x\<bar> / 2 ^ 53"
proof -
  have x0: "x \<noteq> 0" using assms(1) by (cases "x = 0") simp_all
  from rnd_error [OF x0 assms(2)] obtain y where y: "rnd x = Fin y" "\<bar>y - x\<bar> \<le> ulp x / 2"
    by blast
  from ulp_le [OF assms(1)] have "ulp x / 2 \<le> \<bar>x\<bar> / 2 ^ 53" by simp
  with y show ?thesis by (meson order_trans)
qed

lemma millis_relative:
  assumes "\<bar>n\<bar> \<le> 2 ^ 51"
  shows "\<exists>y. rnd (real_of_int n / 1000) = Fin y \<and>
             \<bar>y - real_of_int n / 1000\<bar> \<le> \<bar>real_of_int n\<bar> / 1000 / 2 ^ 53"
proof (cases "n = 0")
  case True
  then show ?thesis by simp
next
  case False
  then have "1 \<le> \<bar>n\<bar>" by linarith
  then have one: "1 \<le> \<bar>real_of_int n\<bar>" by (metis of_int_1_le_iff of_int_abs)
  have "(2::real) powi (- 1022) \<le> 1 / 1000"
  proof -
    have "(2::real) powi (- 1022) \<le> 2 powi (- 10)" by (rule power_int_increasing) simp_all
    also have "\<dots> \<le> 1 / 1000" by (simp add: power_int_minus)
    finally show ?thesis .
  qed
  also have "\<dots> \<le> \<bar>real_of_int n / 1000\<bar>" using one by simp
  finally have lo: "2 powi (- 1022) \<le> \<bar>real_of_int n / 1000\<bar>" .
  from assms have "\<bar>real_of_int n\<bar> \<le> 2 ^ 51"
    by (metis of_int_abs of_int_le_iff of_int_numeral of_int_power)
  then have "\<bar>real_of_int n / 1000\<bar> \<le> 2 ^ 51" by simp
  also have "\<dots> < (2::real) powi 1023" by simp
  finally have hi: "\<bar>real_of_int n / 1000\<bar> < 2 powi 1023" .
  from rnd_relative [OF lo hi] show ?thesis by simp
qed

lemma half_sign: "\<bar>y - x\<bar> \<le> \<bar>x\<bar> / 2 \<Longrightarrow> 0 \<le> y \<longleftrightarrow> 0 \<le> (x::real)"
  by arith

lemma millis_sign:
  assumes "\<bar>n\<bar> \<le> 2 ^ 51" "rnd (real_of_int n / 1000) = Fin y"
  shows "0 \<le> y \<longleftrightarrow> 0 \<le> n"
proof -
  from millis_relative [OF assms(1)] assms(2)
  have b: "\<bar>y - real_of_int n / 1000\<bar> \<le> \<bar>real_of_int n\<bar> / 1000 / 2 ^ 53" by simp
  have h: "\<bar>real_of_int n\<bar> / 1000 / 2 ^ 53 \<le> \<bar>real_of_int n\<bar> / 1000 / 2"
    by (intro divide_left_mono) simp_all
  have "\<bar>real_of_int n\<bar> / 1000 / 2 = \<bar>real_of_int n / 1000\<bar> / 2" by simp
  with b h have "\<bar>y - real_of_int n / 1000\<bar> \<le> \<bar>real_of_int n / 1000\<bar> / 2" by linarith
  from half_sign [OF this] show ?thesis by simp
qed

lemma gap_strict:
  "y \<le> a + 1 / 4000 \<Longrightarrow> b - 1 / 4000 \<le> z \<Longrightarrow> a + 1 / 1000 \<le> b \<Longrightarrow> y < (z::real)"
  by linarith

lemma millis_strict:
  assumes "\<bar>n\<bar> \<le> 2 ^ 51" "\<bar>m\<bar> \<le> 2 ^ 51" "n < m"
    and "rnd (real_of_int n / 1000) = Fin y" "rnd (real_of_int m / 1000) = Fin z"
  shows "y < z"
proof -
  from millis_relative [OF assms(1)] assms(4)
  have ey: "\<bar>y - real_of_int n / 1000\<bar> \<le> \<bar>real_of_int n\<bar> / 1000 / 2 ^ 53" by simp
  from millis_relative [OF assms(2)] assms(5)
  have ez: "\<bar>z - real_of_int m / 1000\<bar> \<le> \<bar>real_of_int m\<bar> / 1000 / 2 ^ 53" by simp
  have rn: "\<bar>real_of_int n\<bar> \<le> 2 ^ 51" using assms(1)
    by (metis of_int_abs of_int_le_iff of_int_numeral of_int_power)
  have rm: "\<bar>real_of_int m\<bar> \<le> 2 ^ 51" using assms(2)
    by (metis of_int_abs of_int_le_iff of_int_numeral of_int_power)
  have en: "\<bar>real_of_int n\<bar> / 1000 / 2 ^ 53 \<le> 1 / 4000"
  proof -
    have "\<bar>real_of_int n\<bar> / 1000 / 2 ^ 53 \<le> 2 ^ 51 / 1000 / 2 ^ 53"
      using rn by (intro divide_right_mono) simp_all
    then show ?thesis by simp
  qed
  have em: "\<bar>real_of_int m\<bar> / 1000 / 2 ^ 53 \<le> 1 / 4000"
  proof -
    have "\<bar>real_of_int m\<bar> / 1000 / 2 ^ 53 \<le> 2 ^ 51 / 1000 / 2 ^ 53"
      using rm by (intro divide_right_mono) simp_all
    then show ?thesis by simp
  qed
  from assms(3) have "n + 1 \<le> m" by simp
  then have "real_of_int n + 1 \<le> real_of_int m" by (metis of_int_le_iff of_int_add of_int_1)
  then have gap: "real_of_int n / 1000 + 1 / 1000 \<le> real_of_int m / 1000" by simp
  from abs_le_D1 [OF ey] en have 1: "y \<le> real_of_int n / 1000 + 1 / 4000" by linarith
  from abs_le_D2 [OF ez] em have 2: "real_of_int m / 1000 - 1 / 4000 \<le> z" by linarith
  from 1 2 gap show ?thesis by (rule gap_strict)
qed

section \<open>Lemmas on the geometry\<close>

lemma fneg_fneg [simp]: "fneg (fneg a) = a"
  by (cases a) simp_all

lemma fsub_swap: "fsub a b = fneg (fsub b a)"
  by (cases a; cases b) (simp_all add: fsub_def flip: rnd_minus)

lemma fmul_commute: "fmul a b = fmul b a"
  by (cases a; cases b) (simp_all add: mult.commute)

lemma fmul_fneg_left: "fmul (fneg a) b = fneg (fmul a b)"
  by (cases a; cases b) (simp_all flip: rnd_minus)

lemma fmul_fneg_right: "fmul a (fneg b) = fneg (fmul a b)"
  by (cases a; cases b) (simp_all flip: rnd_minus)

lemma fdiv_lit_fneg: "fdiv_lit (fneg a) d = fneg (fdiv_lit a d)"
  by (cases a) (simp_all flip: rnd_minus)

lemma sin_squared_swap:
  assumes "\<forall>x. Math_sin M (fneg x) = fneg (Math_sin M x)"
  shows "fmul (fmul C (Math_sin M (fdiv_lit (fmul (fsub a b) k) 2)))
              (Math_sin M (fdiv_lit (fmul (fsub a b) k) 2))
       = fmul (fmul C (Math_sin M (fdiv_lit (fmul (fsub b a) k) 2)))
              (Math_sin M (fdiv_lit (fmul (fsub b a) k) 2))"
    and "fmul (Math_sin M (fdiv_lit (fmul (fsub a b) k) 2))
              (Math_sin M (fdiv_lit (fmul (fsub a b) k) 2))
       = fmul (Math_sin M (fdiv_lit (fmul (fsub b a) k) 2))
              (Math_sin M (fdiv_lit (fmul (fsub b a) k) 2))"
proof -
  define v where "v = Math_sin M (fdiv_lit (fmul (fsub b a) k) 2)"
  have "Math_sin M (fdiv_lit (fmul (fsub a b) k) 2)
        = Math_sin M (fdiv_lit (fmul (fneg (fsub b a)) k) 2)"
    using fsub_swap [of a b] by simp
  also have "\<dots> = fneg v"
    by (simp add: fmul_fneg_left fdiv_lit_fneg assms v_def)
  finally have u: "Math_sin M (fdiv_lit (fmul (fsub a b) k) 2) = fneg v" .
  show "fmul (fmul C (Math_sin M (fdiv_lit (fmul (fsub a b) k) 2)))
              (Math_sin M (fdiv_lit (fmul (fsub a b) k) 2))
       = fmul (fmul C (Math_sin M (fdiv_lit (fmul (fsub b a) k) 2)))
              (Math_sin M (fdiv_lit (fmul (fsub b a) k) 2))"
    unfolding u v_def [symmetric] by (simp add: fmul_fneg_left fmul_fneg_right)
  show "fmul (Math_sin M (fdiv_lit (fmul (fsub a b) k) 2))
              (Math_sin M (fdiv_lit (fmul (fsub a b) k) 2))
       = fmul (Math_sin M (fdiv_lit (fmul (fsub b a) k) 2))
              (Math_sin M (fdiv_lit (fmul (fsub b a) k) 2))"
    unfolding u v_def [symmetric] by (simp add: fmul_fneg_left fmul_fneg_right)
qed

lemma segment_sym:
  assumes "\<forall>x. Math_sin M (fneg x) = fneg (Math_sin M x)"
  shows "segment M p q = segment M q p"
proof -
  note lat = sin_squared_swap(2) [OF assms, where a = "latitude q" and b = "latitude p"]
  note lon = sin_squared_swap(1) [OF assms, where a = "longitude q" and b = "longitude p"]
  note cos = fmul_commute [of "Math_cos M (fmul (latitude p) (fdiv_lit MathPI 180))"
                              "Math_cos M (fmul (latitude q) (fdiv_lit MathPI 180))"]
  show ?thesis
    unfolding segment_def Let_def by (simp only: lat lon cos)
qed

lemma segment_lengths_short: "length cs < 2 \<Longrightarrow> segment_lengths M cs = []"
  by (induction M cs rule: segment_lengths.induct) simp_all

lemma distance_loop_foldl:
  "i \<le> length cs \<Longrightarrow> distance_loop M cs i d = foldl fadd d (segment_lengths M (drop i cs))"
proof (induction M cs i d rule: distance_loop.induct)
  case (1 M cs i d)
  show ?case
  proof (cases "i < length cs - 1")
    case True
    then have i: "i < length cs" "Suc i < length cs" by simp_all
    have dr: "drop i cs = cs ! i # cs ! (i + 1) # drop (Suc (Suc i)) cs"
      using i by (simp add: Cons_nth_drop_Suc)
    have dr': "drop (i + 1) cs = cs ! (i + 1) # drop (Suc (Suc i)) cs"
      using i by (simp add: Cons_nth_drop_Suc)
    have "distance_loop M cs i d
          = distance_loop M cs (i + 1) (fadd d (segment M (cs ! i) (cs ! (i + 1))))"
      using True by (subst distance_loop.simps) simp
    also have "\<dots> = foldl fadd (fadd d (segment M (cs ! i) (cs ! (i + 1))))
                       (segment_lengths M (drop (i + 1) cs))"
      using True by (intro "1.IH") auto
    finally show ?thesis by (simp only: dr dr' segment_lengths.simps foldl.simps)
  next
    case False
    with "1.prems" have "length (drop i cs) < 2" by simp
    then have "segment_lengths M (drop i cs) = []" by (rule segment_lengths_short)
    with False show ?thesis by (subst distance_loop.simps) simp
  qed
qed

lemma calculateDistance_foldl: "calculateDistance M cs = foldl fadd (Fin 0) (segment_lengths M cs)"
  by (simp add: calculateDistance_def distance_loop_foldl segment_lengths_short)

lemma segment_lengths_append2:
  "segment_lengths M (xs @ [a, b]) = segment_lengths M (xs @ [a]) @ [segment M a b]"
  by (induction xs rule: segment_lengths.induct) simp_all

lemma segment_lengths_rev:
  assumes "\<forall>x. Math_sin M (fneg x) = fneg (Math_sin M x)"
  shows "segment_lengths M (rev cs) = rev (segment_lengths M cs)"
  using assms
proof (induction M cs rule: segment_lengths.induct)
  case (1 M p q cs)
  have "segment_lengths M (rev (p # q # cs)) = segment_lengths M (rev cs @ [q, p])" by simp
  also have "\<dots> = segment_lengths M (rev cs @ [q]) @ [segment M q p]" by (rule segment_lengths_append2)
  also have "\<dots> = rev (segment_lengths M (q # cs)) @ [segment M p q]"
    using "1.IH" [OF "1.prems"] segment_sym [OF "1.prems", of p q] by simp
  finally show ?case by simp
qed simp_all

lemma calculateDistance_rev:
  assumes "\<forall>x. Math_sin M (fneg x) = fneg (Math_sin M x)"
  shows "calculateDistance M (rev cs) = foldl fadd (Fin 0) (rev (segment_lengths M cs))"
  by (simp add: calculateDistance_foldl segment_lengths_rev [OF assms])

text \<open>Adding zero to a sum leaves it as it is.\<close>

lemma rnd_1 [simp]: "rnd 1 = Fin 1"
  by (rule rnd_near [where e = 0 and m = "2 ^ 52"]) simp_all

lemma fadd_zero_right: "fadd (fadd a b) (Fin 0) = fadd a b"
proof (cases "fadd a b")
  case (Fin z)
  then obtain x y where "a = Fin x" "b = Fin y" by (cases a; cases b) simp_all
  with Fin have "rnd (x + y) = Fin z" by simp
  then have "rnd z = Fin z" using rnd_double [of "x + y" z] by (simp add: double_def)
  with Fin show ?thesis by simp
qed simp_all

lemma foldl_fadd_zero:
  "foldl fadd d (xs @ Fin 0 # ys) = foldl fadd d (xs @ ys)"
  if "xs \<noteq> [] \<or> d = Fin 0"
proof (cases xs rule: rev_cases)
  case Nil
  with that show ?thesis by simp
next
  case (snoc zs z)
  then show ?thesis by (simp add: fadd_zero_right)
qed

lemma calculateDistance_short: "length cs < 2 \<Longrightarrow> calculateDistance M cs = Fin 0"
  by (simp add: calculateDistance_def)

section \<open>The example routes, evaluated\<close>

text \<open>
  Each step of \<open>segment\<close> on the example routes: the exact result of the operation
  lies in the binade \<open>e\<close> and the double given is the multiple \<open>m\<close> of
  \<open>2 powi (e - 52)\<close> nearest to it.
\<close>

lemma rnd_tie:
  assumes "2 powi e \<le> \<bar>x\<bar>" "\<bar>x\<bar> < 2 powi (e + 1)" "- 1022 \<le> e" "e < 1023"
    and "y = of_int m * 2 powi (e - 52)" and "\<bar>x - y\<bar> = 2 powi (e - 53)" and "even m"
  shows "rnd x = Fin y"
proof -
  have p: "0 < (2::real) powi e" by simp
  with assms(1) have x0: "x \<noteq> 0" by (cases "x = 0") simp_all
  have u: "ulp x = 2 powi (e - 52)" using x0 assms(1-3) by (rule ulp_eval)
  have h: "(2::real) powi (e - 53) = 2 powi (e - 52) / 2"
    by (simp add: power_int_diff)
  have "\<bar>x / 2 powi (e - 52) - of_int m\<bar> = \<bar>x - y\<bar> / 2 powi (e - 52)"
    unfolding assms(5) by (simp add: field_simps abs_divide flip: abs_mult)
  also have "\<dots> = 1 / 2" using assms(6) unfolding h by (simp add: field_simps)
  finally have "rne (x / ulp x) = m" unfolding u using assms(7) by (rule rne_tie)
  then have y: "of_int (rne (x / ulp x)) * ulp x = y" by (simp add: u assms(5))
  have "\<bar>y\<bar> \<le> \<bar>x\<bar> + \<bar>x - y\<bar>" by linarith
  also have "\<dots> < 2 powi (e + 1) + 2 powi (e - 53)" using assms(2,6) by linarith
  also have "\<dots> \<le> 2 powi 1023 + 2 powi 1023"
    using assms(4) by (intro add_mono power_int_increasing) auto
  also have "\<dots> = 2 ^ 1024" by simp
  finally show ?thesis using x0 by (simp add: rnd_def Let_def y)
qed

lemma fmul_NaN [simp]: "fmul a NaN = NaN"
  by (cases a) simp_all

lemma fadd_NaN [simp]: "fadd a NaN = NaN"
  by (cases a) simp_all

lemma sample_atan2_NaN: "Math_atan2 sample_math y NaN = NaN"
  by (simp add: sample_math_def sample_atan2_def)

lemma segment_48_2_49_2:
  "segment sample_math \<lparr>latitude = Fin 48, longitude = Fin 2\<rparr>
     \<lparr>latitude = Fin 49, longitude = Fin 2\<rparr>
   = Fin (1956161836726267 / 2 ^ 44)"
proof -
  have f1: "fdiv_lit MathPI 180
      = Fin (5030569068109113 / 2 ^ 58)"
    by (simp only: MathPI_def fdiv_lit.simps) (rule rnd_near [where e = "- 6" and m = "5030569068109113"], simp_all)
  have f2: "fsub (Fin 49) (Fin 48)
      = Fin 1"
    by (simp only: fsub_def fneg.simps fadd.simps) (rule rnd_near [where e = "0" and m = "4503599627370496"], simp_all)
  have f3: "fmul (Fin 1) (Fin (5030569068109113 / 2 ^ 58))
      = Fin (5030569068109113 / 2 ^ 58)"
    by (simp only: fmul.simps) (rule rnd_near [where e = "- 6" and m = "5030569068109113"], simp_all)
  have f4: "fsub (Fin 2) (Fin 2)
      = Fin 0"
    by (simp add: fsub_def)
  have f5: "fmul (Fin 0) (Fin (5030569068109113 / 2 ^ 58))
      = Fin 0"
    by simp
  have f6: "fdiv_lit (Fin (5030569068109113 / 2 ^ 58)) 2
      = Fin (5030569068109113 / 2 ^ 59)"
    by (simp only: fdiv_lit.simps) (rule rnd_near [where e = "- 7" and m = "5030569068109113"], simp_all)
  have f7: "Math_sin sample_math (Fin (5030569068109113 / 2 ^ 59))
      = Fin (5030505218395169 / 2 ^ 59)"
    by (simp add: sample_math_def sample_sin_def sin_table_def)
  have f8: "fmul (Fin (5030505218395169 / 2 ^ 59)) (Fin (5030505218395169 / 2 ^ 59))
      = Fin (2809528471237169 / 2 ^ 65)"
    by (simp only: fmul.simps) (rule rnd_near [where e = "- 14" and m = "5619056942474338"], simp_all)
  have f9: "fmul (Fin 48) (Fin (5030569068109113 / 2 ^ 58))
      = Fin (3772926801081835 / 2 ^ 52)"
    by (simp only: fmul.simps) (rule rnd_tie [where e = "- 1" and m = "7545853602163670"], simp_all)
  have f10: "Math_cos sample_math (Fin (3772926801081835 / 2 ^ 52))
      = Fin (753374087364987 / 2 ^ 50)"
    by (simp add: sample_math_def sample_cos_def cos_table_def)
  have f11: "fmul (Fin 49) (Fin (5030569068109113 / 2 ^ 58))
      = Fin (7703058885542079 / 2 ^ 53)"
    by (simp only: fmul.simps) (rule rnd_near [where e = "- 1" and m = "7703058885542079"], simp_all)
  have f12: "Math_cos sample_math (Fin (7703058885542079 / 2 ^ 53))
      = Fin (1477313599247349 / 2 ^ 51)"
    by (simp add: sample_math_def sample_cos_def cos_table_def)
  have f13: "fmul (Fin (753374087364987 / 2 ^ 50)) (Fin (1477313599247349 / 2 ^ 51))
      = Fin (7908125955572527 / 2 ^ 54)"
    by (simp only: fmul.simps) (rule rnd_near [where e = "- 2" and m = "7908125955572527"], simp_all)
  have f14: "fdiv_lit (Fin 0) 2
      = Fin 0"
    by simp
  have f15: "Math_sin sample_math (Fin 0)
      = Fin 0"
    by (simp add: sample_math_def sample_sin_def sin_table_def)
  have f16: "fmul (Fin (7908125955572527 / 2 ^ 54)) (Fin 0)
      = Fin 0"
    by simp
  have f17: "fmul (Fin 0) (Fin 0)
      = Fin 0"
    by simp
  have f18: "fadd (Fin (2809528471237169 / 2 ^ 65)) (Fin 0)
      = Fin (2809528471237169 / 2 ^ 65)"
    by (simp only: fadd.simps) (rule rnd_near [where e = "- 14" and m = "5619056942474338"], simp_all)
  have f19: "fsub (Fin 1) (Fin (2809528471237169 / 2 ^ 65))
      = Fin (9006513334704069 / 2 ^ 53)"
    by (simp only: fsub_def fneg.simps fadd.simps) (rule rnd_near [where e = "- 1" and m = "9006513334704069"], simp_all)
  have f20: "Math_sqrt sample_math (Fin (2809528471237169 / 2 ^ 65))
      = Fin (5030505218395169 / 2 ^ 59)"
    by (simp add: sample_math_def sample_sqrt_def sqrt_table_def)
  have f21: "Math_sqrt sample_math (Fin (9006513334704069 / 2 ^ 53))
      = Fin (9006856288192973 / 2 ^ 53)"
    by (simp add: sample_math_def sample_sqrt_def sqrt_table_def)
  have f22: "Math_atan2 sample_math (Fin (5030505218395169 / 2 ^ 59)) (Fin (9006856288192973 / 2 ^ 53))
      = Fin (5030569068109113 / 2 ^ 59)"
    by (simp add: sample_math_def sample_atan2_def atan2_table_def)
  have f23: "fmul (Fin 2) (Fin (5030569068109113 / 2 ^ 59))
      = Fin (5030569068109113 / 2 ^ 58)"
    by (simp only: fmul.simps) (rule rnd_near [where e = "- 6" and m = "5030569068109113"], simp_all)
  have f24: "fmul (Fin 6371) (Fin (5030569068109113 / 2 ^ 58))
      = Fin (1956161836726267 / 2 ^ 44)"
    by (simp only: fmul.simps) (rule rnd_near [where e = "6" and m = "7824647346905068"], simp_all)
  show ?thesis
    unfolding segment_def Let_def
    by (simp only: coordinate.select_convs f1 f2 f3 f4 f5 f6 f7 f8 f9 f10 f11 f12 f13 f14 f15 f16
                                          f17 f18 f19 f20 f21 f22 f23 f24)
qed

lemma segment_49_2_51_3:
  "segment sample_math \<lparr>latitude = Fin 49, longitude = Fin 2\<rparr>
     \<lparr>latitude = Fin 51, longitude = Fin 3\<rparr>
   = Fin (4109313145795573 / 2 ^ 44)"
proof -
  have f1: "fdiv_lit MathPI 180
      = Fin (5030569068109113 / 2 ^ 58)"
    by (simp only: MathPI_def fdiv_lit.simps) (rule rnd_near [where e = "- 6" and m = "5030569068109113"], simp_all)
  have f2: "fsub (Fin 51) (Fin 49)
      = Fin 2"
    by (simp only: fsub_def fneg.simps fadd.simps) (rule rnd_near [where e = "1" and m = "4503599627370496"], simp_all)
  have f3: "fmul (Fin 2) (Fin (5030569068109113 / 2 ^ 58))
      = Fin (5030569068109113 / 2 ^ 57)"
    by (simp only: fmul.simps) (rule rnd_near [where e = "- 5" and m = "5030569068109113"], simp_all)
  have f4: "fsub (Fin 3) (Fin 2)
      = Fin 1"
    by (simp only: fsub_def fneg.simps fadd.simps) (rule rnd_near [where e = "0" and m = "4503599627370496"], simp_all)
  have f5: "fmul (Fin 1) (Fin (5030569068109113 / 2 ^ 58))
      = Fin (5030569068109113 / 2 ^ 58)"
    by (simp only: fmul.simps) (rule rnd_near [where e = "- 6" and m = "5030569068109113"], simp_all)
  have f6: "fdiv_lit (Fin (5030569068109113 / 2 ^ 57)) 2
      = Fin (5030569068109113 / 2 ^ 58)"
    by (simp only: fdiv_lit.simps) (rule rnd_near [where e = "- 6" and m = "5030569068109113"], simp_all)
  have f7: "Math_sin sample_math (Fin (5030569068109113 / 2 ^ 58))
      = Fin (2515156836085391 / 2 ^ 57)"
    by (simp add: sample_math_def sample_sin_def sin_table_def)
  have f8: "fmul (Fin (2515156836085391 / 2 ^ 57)) (Fin (2515156836085391 / 2 ^ 57))
      = Fin (5618629037679911 / 2 ^ 64)"
    by (simp only: fmul.simps) (rule rnd_near [where e = "- 12" and m = "5618629037679911"], simp_all)
  have f9: "fmul (Fin 49) (Fin (5030569068109113 / 2 ^ 58))
      = Fin (7703058885542079 / 2 ^ 53)"
    by (simp only: fmul.simps) (rule rnd_near [where e = "- 1" and m = "7703058885542079"], simp_all)
  have f10: "Math_cos sample_math (Fin (7703058885542079 / 2 ^ 53))
      = Fin (1477313599247349 / 2 ^ 51)"
    by (simp add: sample_math_def sample_cos_def cos_table_def)
  have f11: "fmul (Fin 51) (Fin (5030569068109113 / 2 ^ 58))
      = Fin (8017469452298899 / 2 ^ 53)"
    by (simp only: fmul.simps) (rule rnd_near [where e = "- 1" and m = "8017469452298899"], simp_all)
  have f12: "Math_cos sample_math (Fin (8017469452298899 / 2 ^ 53))
      = Fin (2834207078628703 / 2 ^ 52)"
    by (simp add: sample_math_def sample_cos_def cos_table_def)
  have f13: "fmul (Fin (1477313599247349 / 2 ^ 51)) (Fin (2834207078628703 / 2 ^ 52))
      = Fin (7437628575852677 / 2 ^ 54)"
    by (simp only: fmul.simps) (rule rnd_near [where e = "- 2" and m = "7437628575852677"], simp_all)
  have f14: "fdiv_lit (Fin (5030569068109113 / 2 ^ 58)) 2
      = Fin (5030569068109113 / 2 ^ 59)"
    by (simp only: fdiv_lit.simps) (rule rnd_near [where e = "- 7" and m = "5030569068109113"], simp_all)
  have f15: "Math_sin sample_math (Fin (5030569068109113 / 2 ^ 59))
      = Fin (5030505218395169 / 2 ^ 59)"
    by (simp add: sample_math_def sample_sin_def sin_table_def)
  have f16: "fmul (Fin (7437628575852677 / 2 ^ 54)) (Fin (5030505218395169 / 2 ^ 59))
      = Fin (8307805413235041 / 2 ^ 61)"
    by (simp only: fmul.simps) (rule rnd_near [where e = "- 9" and m = "8307805413235041"], simp_all)
  have f17: "fmul (Fin (8307805413235041 / 2 ^ 61)) (Fin (5030505218395169 / 2 ^ 59))
      = Fin (2319947483269719 / 2 ^ 66)"
    by (simp only: fmul.simps) (rule rnd_near [where e = "- 15" and m = "4639894966539438"], simp_all)
  have f18: "fadd (Fin (5618629037679911 / 2 ^ 64)) (Fin (2319947483269719 / 2 ^ 66))
      = Fin (6198615908497341 / 2 ^ 64)"
    by (simp only: fadd.simps) (rule rnd_near [where e = "- 12" and m = "6198615908497341"], simp_all)
  have f19: "fsub (Fin 1) (Fin (6198615908497341 / 2 ^ 64))
      = Fin (9004172586816921 / 2 ^ 53)"
    by (simp only: fsub_def fneg.simps fadd.simps) (rule rnd_near [where e = "- 1" and m = "9004172586816921"], simp_all)
  have f20: "Math_sqrt sample_math (Fin (6198615908497341 / 2 ^ 64))
      = Fin (330222961467191 / 2 ^ 54)"
    by (simp add: sample_math_def sample_sqrt_def sqrt_table_def)
  have f21: "Math_sqrt sample_math (Fin (9004172586816921 / 2 ^ 53))
      = Fin (4502842896813541 / 2 ^ 52)"
    by (simp add: sample_math_def sample_sqrt_def sqrt_table_def)
  have f22: "Math_atan2 sample_math (Fin (330222961467191 / 2 ^ 54)) (Fin (4502842896813541 / 2 ^ 52))
      = Fin (5283863332343013 / 2 ^ 58)"
    by (simp add: sample_math_def sample_atan2_def atan2_table_def)
  have f23: "fmul (Fin 2) (Fin (5283863332343013 / 2 ^ 58))
      = Fin (5283863332343013 / 2 ^ 57)"
    by (simp only: fmul.simps) (rule rnd_near [where e = "- 5" and m = "5283863332343013"], simp_all)
  have f24: "fmul (Fin 6371) (Fin (5283863332343013 / 2 ^ 57))
      = Fin (4109313145795573 / 2 ^ 44)"
    by (simp only: fmul.simps) (rule rnd_near [where e = "7" and m = "8218626291591146"], simp_all)
  show ?thesis
    unfolding segment_def Let_def
    by (simp only: coordinate.select_convs f1 f2 f3 f4 f5 f6 f7 f8 f9 f10 f11 f12 f13 f14 f15 f16
                                          f17 f18 f19 f20 f21 f22 f23 f24)
qed

lemma segment_51_3_51_4:
  "segment sample_math \<lparr>latitude = Fin 51, longitude = Fin 3\<rparr>
     \<lparr>latitude = Fin 51, longitude = Fin 4\<rparr>
   = Fin (2462086190283913 / 2 ^ 45)"
proof -
  have f1: "fdiv_lit MathPI 180
      = Fin (5030569068109113 / 2 ^ 58)"
    by (simp only: MathPI_def fdiv_lit.simps) (rule rnd_near [where e = "- 6" and m = "5030569068109113"], simp_all)
  have f2: "fsub (Fin 51) (Fin 51)
      = Fin 0"
    by (simp add: fsub_def)
  have f3: "fmul (Fin 0) (Fin (5030569068109113 / 2 ^ 58))
      = Fin 0"
    by simp
  have f4: "fsub (Fin 4) (Fin 3)
      = Fin 1"
    by (simp only: fsub_def fneg.simps fadd.simps) (rule rnd_near [where e = "0" and m = "4503599627370496"], simp_all)
  have f5: "fmul (Fin 1) (Fin (5030569068109113 / 2 ^ 58))
      = Fin (5030569068109113 / 2 ^ 58)"
    by (simp only: fmul.simps) (rule rnd_near [where e = "- 6" and m = "5030569068109113"], simp_all)
  have f6: "fdiv_lit (Fin 0) 2
      = Fin 0"
    by simp
  have f7: "Math_sin sample_math (Fin 0)
      = Fin 0"
    by (simp add: sample_math_def sample_sin_def sin_table_def)
  have f8: "fmul (Fin 0) (Fin 0)
      = Fin 0"
    by simp
  have f9: "fmul (Fin 51) (Fin (5030569068109113 / 2 ^ 58))
      = Fin (8017469452298899 / 2 ^ 53)"
    by (simp only: fmul.simps) (rule rnd_near [where e = "- 1" and m = "8017469452298899"], simp_all)
  have f10: "Math_cos sample_math (Fin (8017469452298899 / 2 ^ 53))
      = Fin (2834207078628703 / 2 ^ 52)"
    by (simp add: sample_math_def sample_cos_def cos_table_def)
  have f11: "fmul (Fin (2834207078628703 / 2 ^ 52)) (Fin (2834207078628703 / 2 ^ 52))
      = Fin (1783624307038833 / 2 ^ 52)"
    by (simp only: fmul.simps) (rule rnd_near [where e = "- 2" and m = "7134497228155332"], simp_all)
  have f12: "fdiv_lit (Fin (5030569068109113 / 2 ^ 58)) 2
      = Fin (5030569068109113 / 2 ^ 59)"
    by (simp only: fdiv_lit.simps) (rule rnd_near [where e = "- 7" and m = "5030569068109113"], simp_all)
  have f13: "Math_sin sample_math (Fin (5030569068109113 / 2 ^ 59))
      = Fin (5030505218395169 / 2 ^ 59)"
    by (simp add: sample_math_def sample_sin_def sin_table_def)
  have f14: "fmul (Fin (1783624307038833 / 2 ^ 52)) (Fin (5030505218395169 / 2 ^ 59))
      = Fin (7969208745542137 / 2 ^ 61)"
    by (simp only: fmul.simps) (rule rnd_near [where e = "- 9" and m = "7969208745542137"], simp_all)
  have f15: "fmul (Fin (7969208745542137 / 2 ^ 61)) (Fin (5030505218395169 / 2 ^ 59))
      = Fin (2225394656381615 / 2 ^ 66)"
    by (simp only: fmul.simps) (rule rnd_near [where e = "- 16" and m = "8901578625526460"], simp_all)
  have f16: "fadd (Fin 0) (Fin (2225394656381615 / 2 ^ 66))
      = Fin (2225394656381615 / 2 ^ 66)"
    by (simp only: fadd.simps) (rule rnd_near [where e = "- 16" and m = "8901578625526460"], simp_all)
  have f17: "fsub (Fin 1) (Fin (2225394656381615 / 2 ^ 66))
      = Fin (2251731900029963 / 2 ^ 51)"
    by (simp only: fsub_def fneg.simps fadd.simps) (rule rnd_near [where e = "- 1" and m = "9006927600119852"], simp_all)
  have f18: "Math_sqrt sample_math (Fin (2225394656381615 / 2 ^ 66))
      = Fin (395724938902337 / 2 ^ 56)"
    by (simp add: sample_math_def sample_sqrt_def sqrt_table_def)
  have f19: "Math_sqrt sample_math (Fin (2251731900029963 / 2 ^ 51))
      = Fin (4503531713203139 / 2 ^ 52)"
    by (simp add: sample_math_def sample_sqrt_def sqrt_table_def)
  have f20: "Math_atan2 sample_math (Fin (395724938902337 / 2 ^ 56)) (Fin (4503531713203139 / 2 ^ 52))
      = Fin (6331630849413221 / 2 ^ 60)"
    by (simp add: sample_math_def sample_atan2_def atan2_table_def)
  have f21: "fmul (Fin 2) (Fin (6331630849413221 / 2 ^ 60))
      = Fin (6331630849413221 / 2 ^ 59)"
    by (simp only: fmul.simps) (rule rnd_near [where e = "- 7" and m = "6331630849413221"], simp_all)
  have f22: "fmul (Fin 6371) (Fin (6331630849413221 / 2 ^ 59))
      = Fin (2462086190283913 / 2 ^ 45)"
    by (simp only: fmul.simps) (rule rnd_near [where e = "6" and m = "4924172380567826"], simp_all)
  show ?thesis
    unfolding segment_def Let_def
    by (simp only: coordinate.select_convs f1 f2 f3 f4 f5 f6 f7 f8 f9 f10 f11 f12 f13 f14 f15 f16
                                          f17 f18 f19 f20 f21 f22)
qed

lemma segment_antipodal:
  "segment sample_math \<lparr>latitude = Fin 8, longitude = Fin 0\<rparr>
     \<lparr>latitude = Fin (- 8), longitude = Fin 180\<rparr>
   = NaN"
proof -
  have f1: "fdiv_lit MathPI 180
      = Fin (5030569068109113 / 2 ^ 58)"
    by (simp only: MathPI_def fdiv_lit.simps) (rule rnd_near [where e = "- 6" and m = "5030569068109113"], simp_all)
  have f2: "fsub (Fin (- 8)) (Fin 8)
      = Fin (- 16)"
    by (simp only: fsub_def fneg.simps fadd.simps) (rule rnd_near [where e = "4" and m = "- 4503599627370496"], simp_all)
  have f3: "fmul (Fin (- 16)) (Fin (5030569068109113 / 2 ^ 58))
      = Fin (- (5030569068109113 / 2 ^ 54))"
    by (simp only: fmul.simps) (rule rnd_near [where e = "- 2" and m = "- 5030569068109113"], simp_all)
  have f4: "fsub (Fin 180) (Fin 0)
      = Fin 180"
    by (simp only: fsub_def fneg.simps fadd.simps) (rule rnd_near [where e = "7" and m = "6333186975989760"], simp_all)
  have f5: "fmul (Fin 180) (Fin (5030569068109113 / 2 ^ 58))
      = Fin (884279719003555 / 2 ^ 48)"
    by (simp only: fmul.simps) (rule rnd_near [where e = "1" and m = "7074237752028440"], simp_all)
  have f6: "fdiv_lit (Fin (- (5030569068109113 / 2 ^ 54))) 2
      = Fin (- (5030569068109113 / 2 ^ 55))"
    by (simp only: fdiv_lit.simps) (rule rnd_near [where e = "- 3" and m = "- 5030569068109113"], simp_all)
  have f7: "Math_sin sample_math (Fin (- (5030569068109113 / 2 ^ 55)))
      = Fin (- (5014239404989977 / 2 ^ 55))"
    by (simp add: sample_math_def sample_sin_def sin_table_def)
  have f8: "fmul (Fin (- (5014239404989977 / 2 ^ 55))) (Fin (- (5014239404989977 / 2 ^ 55)))
      = Fin (1395694493897217 / 2 ^ 56)"
    by (simp only: fmul.simps) (rule rnd_near [where e = "- 6" and m = "5582777975588868"], simp_all)
  have f9: "fmul (Fin 8) (Fin (5030569068109113 / 2 ^ 58))
      = Fin (5030569068109113 / 2 ^ 55)"
    by (simp only: fmul.simps) (rule rnd_near [where e = "- 3" and m = "5030569068109113"], simp_all)
  have f10: "Math_cos sample_math (Fin (5030569068109113 / 2 ^ 55))
      = Fin (4459770905381437 / 2 ^ 52)"
    by (simp add: sample_math_def sample_cos_def cos_table_def)
  have f11: "fmul (Fin (- 8)) (Fin (5030569068109113 / 2 ^ 58))
      = Fin (- (5030569068109113 / 2 ^ 55))"
    by (simp only: fmul.simps) (rule rnd_near [where e = "- 3" and m = "- 5030569068109113"], simp_all)
  have f12: "Math_cos sample_math (Fin (- (5030569068109113 / 2 ^ 55)))
      = Fin (4459770905381437 / 2 ^ 52)"
    by (simp add: sample_math_def sample_cos_def cos_table_def)
  have f13: "fmul (Fin (4459770905381437 / 2 ^ 52)) (Fin (4459770905381437 / 2 ^ 52))
      = Fin (8832737443003841 / 2 ^ 53)"
    by (simp only: fmul.simps) (rule rnd_near [where e = "- 1" and m = "8832737443003841"], simp_all)
  have f14: "fdiv_lit (Fin (884279719003555 / 2 ^ 48)) 2
      = Fin (884279719003555 / 2 ^ 49)"
    by (simp only: fdiv_lit.simps) (rule rnd_near [where e = "0" and m = "7074237752028440"], simp_all)
  have f15: "Math_sin sample_math (Fin (884279719003555 / 2 ^ 49))
      = Fin 1"
    by (simp add: sample_math_def sample_sin_def sin_table_def)
  have f16: "fmul (Fin (8832737443003841 / 2 ^ 53)) (Fin 1)
      = Fin (8832737443003841 / 2 ^ 53)"
    by (simp only: fmul.simps) (rule rnd_near [where e = "- 1" and m = "8832737443003841"], simp_all)
  have f17: "fadd (Fin (1395694493897217 / 2 ^ 56)) (Fin (8832737443003841 / 2 ^ 53))
      = Fin (4503599627370497 / 2 ^ 52)"
    by (simp only: fadd.simps) (rule rnd_near [where e = "0" and m = "4503599627370497"], simp_all)
  have f18: "fsub (Fin 1) (Fin (4503599627370497 / 2 ^ 52))
      = Fin (- (1 / 2 ^ 52))"
    by (simp only: fsub_def fneg.simps fadd.simps) (rule rnd_near [where e = "- 52" and m = "- 4503599627370496"], simp_all)
  have f19: "Math_sqrt sample_math (Fin (- (1 / 2 ^ 52)))
      = NaN"
    by (simp add: sample_math_def sample_sqrt_def sqrt_table_def)
  show ?thesis
    unfolding segment_def Let_def
    by (simp only: coordinate.select_convs f1 f2 f3 f4 f5 f6 f7 f8 f9 f10 f11 f12 f13 f14 f15 f16
                                          f17 f18 f19 sample_atan2_NaN fmul_NaN)
qed

lemma sum_1:
  "fadd (Fin 0) (Fin (1956161836726267 / 2 ^ 44))
   = Fin (1956161836726267 / 2 ^ 44)"
  by (simp only: fadd.simps) (rule rnd_near [where e = "6" and m = "7824647346905068"], simp_all)

lemma sum_2:
  "fadd (Fin (1956161836726267 / 2 ^ 44)) (Fin (4109313145795573 / 2 ^ 44))
   = Fin (379092186407615 / 2 ^ 40)"
  by (simp only: fadd.simps) (rule rnd_near [where e = "8" and m = "6065474982521840"], simp_all)

lemma sum_3:
  "fadd (Fin (379092186407615 / 2 ^ 40)) (Fin (2462086190283913 / 2 ^ 45))
   = Fin (1824129519415949 / 2 ^ 42)"
  by (simp only: fadd.simps) (rule rnd_tie [where e = "8" and m = "7296518077663796"], simp_all)

lemma sum_4:
  "fadd (Fin 0) (Fin (2462086190283913 / 2 ^ 45))
   = Fin (2462086190283913 / 2 ^ 45)"
  by (simp only: fadd.simps) (rule rnd_near [where e = "6" and m = "4924172380567826"], simp_all)

lemma sum_5:
  "fadd (Fin (2462086190283913 / 2 ^ 45)) (Fin (4109313145795573 / 2 ^ 44))
   = Fin (2670178120468765 / 2 ^ 43)"
  by (simp only: fadd.simps) (rule rnd_tie [where e = "8" and m = "5340356240937530"], simp_all)

lemma sum_6:
  "fadd (Fin (2670178120468765 / 2 ^ 43)) (Fin (1956161836726267 / 2 ^ 44))
   = Fin (7296518077663797 / 2 ^ 44)"
  by (simp only: fadd.simps) (rule rnd_near [where e = "8" and m = "7296518077663797"], simp_all)

section \<open>Lemmas on a repeated point and on short routes\<close>

lemma radians_factor: "fdiv_lit MathPI 180 = Fin (5030569068109113 / 2 ^ 58)"
  by (simp only: MathPI_def fdiv_lit.simps)
     (rule rnd_near [where e = "- 6" and m = "5030569068109113"], simp_all)

lemma segment_same:
  assumes "latitude p = Fin a" "longitude p = Fin b"
    and "Math_sin M (Fin 0) = Fin 0" "Math_sqrt M (Fin 0) = Fin 0" "Math_sqrt M (Fin 1) = Fin 1"
    and "Math_atan2 M (Fin 0) (Fin 1) = Fin 0"
    and "Math_cos M (fmul (latitude p) (fdiv_lit MathPI 180)) = Fin y" "\<bar>y\<bar> \<le> 1"
  shows "segment M p p = Fin 0"
proof -
  have "\<bar>y\<bar> * \<bar>y\<bar> \<le> 1 * 1" using assms(8) by (intro mult_mono) auto
  then have "\<bar>y * y\<bar> \<le> 1" by (simp add: abs_mult)
  then have "\<bar>y * y\<bar> < 2 powi 1023" by (rule le_less_trans) simp
  then obtain w where w: "rnd (y * y) = Fin w" using rnd_Fin by blast
  show ?thesis
    unfolding segment_def Let_def assms(7)
    by (simp add: assms(1-6) radians_factor fsub_def w)
qed

lemma segment_lengths_append:
  "segment_lengths M (xs @ p # ys) = segment_lengths M (xs @ [p]) @ segment_lengths M (p # ys)"
proof (induction M xs rule: segment_lengths.induct)
  case (1 M a b cs)
  then show ?case by simp
qed (simp, cases ys, simp_all)

lemma calculateDistance_dup:
  assumes "segment M p p = Fin 0"
  shows "calculateDistance M (xs @ p # p # ys) = calculateDistance M (xs @ p # ys)"
proof -
  have "segment_lengths M (xs @ p # p # ys)
        = segment_lengths M (xs @ [p]) @ Fin 0 # segment_lengths M (p # ys)"
    using segment_lengths_append [of M xs p "p # ys"] assms by simp
  moreover have "foldl fadd (Fin 0) (segment_lengths M (xs @ [p]) @ Fin 0 # segment_lengths M (p # ys))
        = foldl fadd (Fin 0) (segment_lengths M (xs @ [p]) @ segment_lengths M (p # ys))"
    by (rule foldl_fadd_zero) simp
  ultimately show ?thesis
    by (simp only: calculateDistance_foldl segment_lengths_append [of M xs p ys])
qed

lemma sample_sin_odd: "Math_sin sample_math (fneg x) = fneg (Math_sin sample_math x)"
proof (cases x)
  case (Fin a)
  show ?thesis
  proof (cases "a = 0")
    case True
    with Fin show ?thesis by (simp add: sample_math_def sample_sin_def sin_table_def)
  next
    case False
    with Fin show ?thesis
      by (simp add: sample_math_def sample_sin_def rnd_minus split: option.splits)
  qed
qed (simp_all add: sample_math_def sample_sin_def)

lemma sample_conventions:
  "Math_sin sample_math (Fin 0) = Fin 0"
  "Math_sqrt sample_math (Fin 0) = Fin 0"
  "Math_sqrt sample_math (Fin 1) = Fin 1"
  "Math_atan2 sample_math (Fin 0) (Fin 1) = Fin 0"
  by (simp_all add: sample_math_def sample_sin_def sin_table_def sample_sqrt_def sqrt_table_def
        sample_atan2_def atan2_table_def atan2_def)

lemma sample_cos_48:
  "Math_cos sample_math (fmul (Fin 48) (fdiv_lit MathPI 180)) = Fin (753374087364987 / 2 ^ 50)"
proof -
  have "fmul (Fin 48) (Fin (5030569068109113 / 2 ^ 58)) = Fin (3772926801081835 / 2 ^ 52)"
    by (simp only: fmul.simps)
       (rule rnd_tie [where e = "- 1" and m = "7545853602163670"], simp_all)
  then show ?thesis
    by (simp add: radians_factor sample_math_def sample_cos_def cos_table_def)
qed

lemma fadd_commute: "fadd a b = fadd b a"
  by (cases a; cases b) (simp_all add: add.commute)

lemma fadd_zero_left_fmul: "fadd (Fin 0) (fmul a b) = fmul a b"
proof (cases "fmul a b")
  case (Fin z)
  then obtain x y where "a = Fin x" "b = Fin y"
    by (cases a; cases b) (simp_all split: if_splits)
  with Fin have "rnd (x * y) = Fin z" by simp
  then have "rnd z = Fin z" using rnd_double [of "x * y" z] by (simp add: double_def)
  with Fin show ?thesis by simp
qed simp_all

lemma segment_fadd_zero: "fadd (Fin 0) (segment M p q) = segment M p q"
  by (simp add: segment_def Let_def fadd_zero_left_fmul)

lemma calculateDistance_rev_short:
  assumes "\<forall>x. Math_sin M (fneg x) = fneg (Math_sin M x)" and "length cs \<le> 3"
  shows "calculateDistance M (rev cs) = calculateDistance M cs"
proof -
  consider "cs = []" | a where "cs = [a]" | a b where "cs = [a, b]"
    | a b c where "cs = [a, b, c]"
  proof (cases cs)
    case Nil
    then show ?thesis using that by simp
  next
    case (Cons a as)
    note A = this
    show ?thesis
    proof (cases as)
      case Nil
      with A show ?thesis using that by simp
    next
      case (Cons b bs)
      note B = this
      show ?thesis
      proof (cases bs)
        case Nil
        with A B show ?thesis using that by simp
      next
        case (Cons c ds)
        with A B assms(2) have "cs = [a, b, c]" by simp
        then show ?thesis using that by simp
      qed
    qed
  qed
  then show ?thesis
  proof cases
    case 1
    then show ?thesis by simp
  next
    case 2
    then show ?thesis by simp
  next
    case 3
    then show ?thesis
      by (simp add: calculateDistance_foldl segment_sym [OF assms(1), of b a])
  next
    case 4
    have "fadd (fadd (Fin 0) (segment M b c)) (segment M a b)
          = fadd (fadd (Fin 0) (segment M a b)) (segment M b c)"
      by (simp add: segment_fadd_zero fadd_commute)
    with 4 show ?thesis
      by (simp add: calculateDistance_foldl segment_sym [OF assms(1), of c b]
            segment_sym [OF assms(1), of b a])
  qed
qed

section \<open>The claims on the circuit distance\<close>

text \<open>
  C1. The claim: for every sequence of coordinates \<open>calculateDistance\<close> returns the
  sum, over the consecutive pairs, of their haversine distance with radius 6371 km,
  and 0 below two points. The code returns 0 below two points
  (\<open>calculateDistance_short\<close>), but it misses the claim at two points opposite on
  the globe, 8 degrees north on the meridian 0 and 8 degrees south on the meridian
  180: there \<open>a\<close> is rounded to the double above 1, \<open>1 - a\<close> is negative, its square
  root is \<open>NaN\<close>, and the function returns \<open>NaN\<close> where the haversine distance is
  half the circumference, about 20015 km.
\<close>

theorem calculateDistance_antipodal_NaN:
  "calculateDistance sample_math
     [\<lparr>latitude = Fin 8, longitude = Fin 0\<rparr>, \<lparr>latitude = Fin (- 8), longitude = Fin 180\<rparr>]
   = NaN"
  by (simp add: calculateDistance_foldl segment_antipodal)

text \<open>
  C9, as amended. A point repeated next to itself adds exactly zero: the distance
  is unchanged, for a point with finite coordinates and a library that returns 0
  for \<open>sin 0\<close>, \<open>sqrt 0\<close> and \<open>atan2 0 1\<close>, 1 for \<open>sqrt 1\<close>, and a cosine between -1 and
  1. Under reversal, with an odd \<open>sin\<close>, every segment keeps its length, and the
  distance of the reversed sequence is the sum of the same lengths added in the
  opposite order; for at most three points that is the distance of the sequence.
  From four points on the two sums can round differently.
\<close>

theorem duplicate_adds_zero_reversal_reorders:
  "(latitude p = Fin a \<and> longitude p = Fin b \<and>
    Math_sin M (Fin 0) = Fin 0 \<and> Math_sqrt M (Fin 0) = Fin 0 \<and> Math_sqrt M (Fin 1) = Fin 1 \<and>
    Math_atan2 M (Fin 0) (Fin 1) = Fin 0 \<and>
    Math_cos M (fmul (latitude p) (fdiv_lit MathPI 180)) = Fin y \<and> \<bar>y\<bar> \<le> 1 \<longrightarrow>
      calculateDistance M (xs @ p # p # ys) = calculateDistance M (xs @ p # ys)) \<and>
   ((\<forall>x. Math_sin M (fneg x) = fneg (Math_sin M x)) \<longrightarrow>
      segment M q r = segment M r q \<and>
      segment_lengths M (rev cs) = rev (segment_lengths M cs) \<and>
      calculateDistance M (rev cs) = foldl fadd (Fin 0) (rev (segment_lengths M cs)) \<and>
      (length cs \<le> 3 \<longrightarrow> calculateDistance M (rev cs) = calculateDistance M cs)) \<and>
   calculateDistance M cs = foldl fadd (Fin 0) (segment_lengths M cs)"
  using segment_same [of p a b M y] calculateDistance_dup [of M p xs ys]
    segment_sym [of M q r] segment_lengths_rev [of M cs] calculateDistance_rev [of M cs]
    calculateDistance_foldl [of M cs] calculateDistance_rev_short [of M cs]
  by blast

text \<open>
  C9 as stated fails: the route \<open>(48, 2), (49, 2), (51, 3), (51, 4)\<close> measures
  414.75903331410086 km, and 414.7590333141009 km when reversed.
\<close>

theorem reversal_changes_distance_counterexample:
  "calculateDistance sample_math
     [\<lparr>latitude = Fin 48, longitude = Fin 2\<rparr>, \<lparr>latitude = Fin 49, longitude = Fin 2\<rparr>,
      \<lparr>latitude = Fin 51, longitude = Fin 3\<rparr>, \<lparr>latitude = Fin 51, longitude = Fin 4\<rparr>]
     = Fin (1824129519415949 / 2 ^ 42) \<and>
   calculateDistance sample_math
     (rev [\<lparr>latitude = Fin 48, longitude = Fin 2\<rparr>, \<lparr>latitude = Fin 49, longitude = Fin 2\<rparr>,
           \<lparr>latitude = Fin 51, longitude = Fin 3\<rparr>, \<lparr>latitude = Fin 51, longitude = Fin 4\<rparr>])
     = Fin (7296518077663797 / 2 ^ 44) \<and>
   calculateDistance sample_math
     (rev [\<lparr>latitude = Fin 48, longitude = Fin 2\<rparr>, \<lparr>latitude = Fin 49, longitude = Fin 2\<rparr>,
           \<lparr>latitude = Fin 51, longitude = Fin 3\<rparr>, \<lparr>latitude = Fin 51, longitude = Fin 4\<rparr>])
     \<noteq> calculateDistance sample_math
     [\<lparr>latitude = Fin 48, longitude = Fin 2\<rparr>, \<lparr>latitude = Fin 49, longitude = Fin 2\<rparr>,
      \<lparr>latitude = Fin 51, longitude = Fin 3\<rparr>, \<lparr>latitude = Fin 51, longitude = Fin 4\<rparr>]"
proof -
  have odd: "\<forall>x. Math_sin sample_math (fneg x) = fneg (Math_sin sample_math x)"
    by (simp add: sample_sin_odd)
  have s: "segment_lengths sample_math
     [\<lparr>latitude = Fin 48, longitude = Fin 2\<rparr>, \<lparr>latitude = Fin 49, longitude = Fin 2\<rparr>,
      \<lparr>latitude = Fin 51, longitude = Fin 3\<rparr>, \<lparr>latitude = Fin 51, longitude = Fin 4\<rparr>]
     = [Fin (1956161836726267 / 2 ^ 44), Fin (4109313145795573 / 2 ^ 44),
        Fin (2462086190283913 / 2 ^ 45)]"
    by (simp only: segment_lengths.simps segment_48_2_49_2 segment_49_2_51_3 segment_51_3_51_4)
  have f: "calculateDistance sample_math
     [\<lparr>latitude = Fin 48, longitude = Fin 2\<rparr>, \<lparr>latitude = Fin 49, longitude = Fin 2\<rparr>,
      \<lparr>latitude = Fin 51, longitude = Fin 3\<rparr>, \<lparr>latitude = Fin 51, longitude = Fin 4\<rparr>]
     = Fin (1824129519415949 / 2 ^ 42)"
    by (simp only: calculateDistance_foldl s foldl.simps sum_1 sum_2 sum_3)
  have b: "calculateDistance sample_math
     (rev [\<lparr>latitude = Fin 48, longitude = Fin 2\<rparr>, \<lparr>latitude = Fin 49, longitude = Fin 2\<rparr>,
           \<lparr>latitude = Fin 51, longitude = Fin 3\<rparr>, \<lparr>latitude = Fin 51, longitude = Fin 4\<rparr>])
     = Fin (7296518077663797 / 2 ^ 44)"
    by (subst calculateDistance_rev [OF odd])
       (simp only: s rev.simps append.simps foldl.simps sum_4 sum_5 sum_6)
  show ?thesis unfolding f b by simp
qed

theorem duplicate_adds_zero_reversal_reorders_witness:
  "latitude \<lparr>latitude = Fin 48, longitude = Fin 2\<rparr> = Fin 48 \<and>
   Math_cos sample_math (fmul (Fin 48) (fdiv_lit MathPI 180)) = Fin (753374087364987 / 2 ^ 50) \<and>
   \<bar>753374087364987 / 2 ^ 50 :: real\<bar> \<le> 1 \<and>
   (\<forall>x. Math_sin sample_math (fneg x) = fneg (Math_sin sample_math x)) \<and>
   calculateDistance sample_math
     ([] @ \<lparr>latitude = Fin 48, longitude = Fin 2\<rparr> # \<lparr>latitude = Fin 48, longitude = Fin 2\<rparr> #
      [\<lparr>latitude = Fin 49, longitude = Fin 2\<rparr>])
   = calculateDistance sample_math
     ([] @ \<lparr>latitude = Fin 48, longitude = Fin 2\<rparr> # [\<lparr>latitude = Fin 49, longitude = Fin 2\<rparr>]) \<and>
   segment sample_math \<lparr>latitude = Fin 49, longitude = Fin 2\<rparr> \<lparr>latitude = Fin 48, longitude = Fin 2\<rparr>
   = segment sample_math \<lparr>latitude = Fin 48, longitude = Fin 2\<rparr> \<lparr>latitude = Fin 49, longitude = Fin 2\<rparr> \<and>
   calculateDistance sample_math
     (rev [\<lparr>latitude = Fin 48, longitude = Fin 2\<rparr>, \<lparr>latitude = Fin 49, longitude = Fin 2\<rparr>])
   = foldl fadd (Fin 0)
      (rev (segment_lengths sample_math
         [\<lparr>latitude = Fin 48, longitude = Fin 2\<rparr>, \<lparr>latitude = Fin 49, longitude = Fin 2\<rparr>])) \<and>
   length [\<lparr>latitude = Fin 48, longitude = Fin 2\<rparr>, \<lparr>latitude = Fin 49, longitude = Fin 2\<rparr>] \<le> 3 \<and>
   calculateDistance sample_math
     (rev [\<lparr>latitude = Fin 48, longitude = Fin 2\<rparr>, \<lparr>latitude = Fin 49, longitude = Fin 2\<rparr>])
   = calculateDistance sample_math
     [\<lparr>latitude = Fin 48, longitude = Fin 2\<rparr>, \<lparr>latitude = Fin 49, longitude = Fin 2\<rparr>]"
proof -
  have odd: "\<forall>x. Math_sin sample_math (fneg x) = fneg (Math_sin sample_math x)"
    by (simp add: sample_sin_odd)
  have c: "Math_cos sample_math
             (fmul (latitude \<lparr>latitude = Fin 48, longitude = Fin 2\<rparr>) (fdiv_lit MathPI 180))
           = Fin (753374087364987 / 2 ^ 50)"
    using sample_cos_48 by simp
  have le: "\<bar>753374087364987 / 2 ^ 50 :: real\<bar> \<le> 1" by simp
  from duplicate_adds_zero_reversal_reorders
         [of "\<lparr>latitude = Fin 48, longitude = Fin 2\<rparr>" 48 2 sample_math
             "753374087364987 / 2 ^ 50" "[]" "[\<lparr>latitude = Fin 49, longitude = Fin 2\<rparr>]"
             "\<lparr>latitude = Fin 49, longitude = Fin 2\<rparr>" "\<lparr>latitude = Fin 48, longitude = Fin 2\<rparr>"
             "[\<lparr>latitude = Fin 48, longitude = Fin 2\<rparr>, \<lparr>latitude = Fin 49, longitude = Fin 2\<rparr>]"]
       odd c le sample_conventions sample_cos_48
  show ?thesis by simp
qed

section \<open>Lemmas on the session\<close>

lemma steps_simps [simp]:
  "steps [] s = s" "steps (x # xs) s = steps xs (step x s)"
  "steps (xs @ ys) s = steps ys (steps xs s)"
  by (simp_all add: steps_def)

lemma emit_fields [simp]:
  "race (emit es s) = race s" "circuit (emit es s) = circuit s"
  "leaderboard (emit es s) = leaderboard s" "loading (emit es s) = loading s"
  "isRacing (emit es s) = isRacing s" "raceStartTime (emit es s) = raceStartTime s"
  "socketRef (emit es s) = socketRef s"
  "locationSubscription (emit es s) = locationSubscription s"
  "pendingWatch (emit es s) = pendingWatch s"
  "user (emit es s) = user s" "effects (emit es s) = effects s @ es"
  by (simp_all add: emit_def)

lemma connectWebSocket_fields [simp]:
  "race (connectWebSocket s) = race s" "circuit (connectWebSocket s) = circuit s"
  "leaderboard (connectWebSocket s) = leaderboard s" "loading (connectWebSocket s) = loading s"
  "isRacing (connectWebSocket s) = isRacing s"
  "raceStartTime (connectWebSocket s) = raceStartTime s"
  "socketRef (connectWebSocket s) = True"
  "locationSubscription (connectWebSocket s) = locationSubscription s"
  "pendingWatch (connectWebSocket s) = pendingWatch s"
  "user (connectWebSocket s) = user s"
  "effects (connectWebSocket s) = (if socketRef s then effects s else effects s @ [SocketOpen])"
  by (simp_all add: connectWebSocket_def)

lemma loadRaceData_keeps [simp]:
  "isRacing (loadRaceData lr s) = isRacing s"
  "raceStartTime (loadRaceData lr s) = raceStartTime s"
  "locationSubscription (loadRaceData lr s) = locationSubscription s"
  "pendingWatch (loadRaceData lr s) = pendingWatch s"
  "user (loadRaceData lr s) = user s"
  "loading (loadRaceData lr s) = False"
  by (simp_all add: loadRaceData_def Let_def split: sum.splits)

lemma loadRaceData_socketRef:
  "socketRef (loadRaceData lr s) =
     (socketRef s \<or> (\<exists>r l c. raceResponse lr = Inr r \<and> leaderboardResponse lr = Inr l \<and>
                        circuitResponse lr = Inr c \<and> (status r = Active \<or> status r = Waiting)))"
  by (simp add: loadRaceData_def Let_def split: sum.splits)

lemma loadRaceData_race:
  "race (loadRaceData lr s) =
     (case (raceResponse lr, leaderboardResponse lr) of
        (Inr r, Inr l) \<Rightarrow> Some r | _ \<Rightarrow> race s)"
  by (simp add: loadRaceData_def Let_def split: sum.splits)

lemma loadRaceData_circuit:
  "circuit (loadRaceData lr s) =
     (case (raceResponse lr, leaderboardResponse lr, circuitResponse lr) of
        (Inr r, Inr l, Inr c) \<Rightarrow> Some c | _ \<Rightarrow> circuit s)"
  by (simp add: loadRaceData_def Let_def split: sum.splits)

lemma final_times_append [simp]: "final_times (xs @ ys) = final_times xs @ final_times ys"
  by (induction xs rule: final_times.induct) simp_all

lemma socket_opens_append [simp]: "socket_opens (xs @ ys) = socket_opens xs + socket_opens ys"
  by (induction xs) (simp_all add: socket_opens_def)

lemma socket_opens_simps [simp]:
  "socket_opens [] = 0" "socket_opens (e # es) = (if e = SocketOpen then 1 else 0) + socket_opens es"
  by (simp_all add: socket_opens_def)

lemma opened_once_connect: "opened_once s \<Longrightarrow> opened_once (connectWebSocket s)"
  by (simp add: opened_once_def)

lemma opened_once_emit:
  "SocketOpen \<notin> set es \<Longrightarrow> opened_once (emit es s) = opened_once s"
  by (induction es) (auto simp: opened_once_def)

lemma opened_once_load: "opened_once s \<Longrightarrow> opened_once (loadRaceData lr s)"
  by (auto simp: opened_once_def loadRaceData_def Let_def split: sum.splits)

lemma opened_once_step: "opened_once s \<Longrightarrow> opened_once (step x s)"
proof (cases x)
  case (TapFinish c n lr)
  assume "opened_once s"
  then show ?thesis
    by (auto simp: TapFinish finishRace_def Let_def opened_once_emit
          intro!: opened_once_load split: option.splits)
       (simp_all add: opened_once_def)
qed (auto simp: opened_once_def on_connect_def on_race_started_def startRacing_def Let_def
      watchResolved_def
      on_participant_position_def on_participant_finished_def joinRace_def joinRace_send_def
      joinRace_resume_def startRaceAsCreator_def loadRaceData_def split: sum.splits)

lemma opened_once_steps: "opened_once s \<Longrightarrow> opened_once (steps xs s)"
  by (induction xs arbitrary: s) (simp_all add: opened_once_step)

lemma opened_once_init: "opened_once (init u)"
  by (simp add: opened_once_def init_def)

lemma opened_once_run: "opened_once (run u lr0 xs)"
  unfolding run_def by (intro opened_once_steps opened_once_load opened_once_init)

lemma sample_simps [simp]:
  "raceResponse (sample_load st ps) = Inr (sample_race st ps)"
  "leaderboardResponse (sample_load st ps) = Inr []"
  "circuitResponse (sample_load st ps) = Inr sample_circuit"
  "status (sample_race st ps) = st" "participants (sample_race st ps) = ps"
  "creator_id (sample_race st ps) = 5" "circuit_id (sample_race st ps) = 4"
  by (simp_all add: sample_load_def sample_race_def)

lemma step_without_socket:
  "\<not> socketRef s \<Longrightarrow> buttons s = [] \<Longrightarrow> pendingWatch s = 0 \<Longrightarrow> step x s = s"
  by (cases x) simp_all

lemma startRacing_fields [simp]:
  "race (startRacing g n s) = race s" "circuit (startRacing g n s) = circuit s"
  "loading (startRacing g n s) = loading s" "socketRef (startRacing g n s) = socketRef s"
  "user (startRacing g n s) = user s"
  "isRacing (startRacing g n s) = (g \<or> isRacing s)"
  "raceStartTime (startRacing g n s) = (if g then Some n else raceStartTime s)"
  "locationSubscription (startRacing g n s) = locationSubscription s"
  "pendingWatch (startRacing g n s) = (if g then pendingWatch s + 1 else pendingWatch s)"
  "effects (startRacing g n s) =
     effects s @ [RequestPermission] @ (if g then [WatchPosition] else [Alert ''Permission Denied''])"
  by (simp_all add: startRacing_def Let_def)

lemma watchResolved_fields [simp]:
  "race (watchResolved h s) = race s" "circuit (watchResolved h s) = circuit s"
  "leaderboard (watchResolved h s) = leaderboard s"
  "loading (watchResolved h s) = loading s" "socketRef (watchResolved h s) = socketRef s"
  "user (watchResolved h s) = user s" "isRacing (watchResolved h s) = isRacing s"
  "raceStartTime (watchResolved h s) = raceStartTime s"
  "locationSubscription (watchResolved h s) = Some h"
  "pendingWatch (watchResolved h s) = pendingWatch s - 1"
  "effects (watchResolved h s) = effects s"
  by (simp_all add: watchResolved_def)

lemma on_race_started_fields [simp]:
  "race (on_race_started g n s) = map_option (\<lambda>prev. prev\<lparr>status := Active\<rparr>) (race s)"
  "circuit (on_race_started g n s) = circuit s"
  "loading (on_race_started g n s) = loading s"
  "socketRef (on_race_started g n s) = socketRef s"
  "user (on_race_started g n s) = user s"
  "isRacing (on_race_started g n s) = (g \<or> isRacing s)"
  "raceStartTime (on_race_started g n s) = (if g then Some n else raceStartTime s)"
  "locationSubscription (on_race_started g n s) = locationSubscription s"
  "pendingWatch (on_race_started g n s) = (if g then pendingWatch s + 1 else pendingWatch s)"
  by (simp_all add: on_race_started_def)

lemma finishRace_fields [simp]:
  "loading (finishRace True n lr s) = False"
  "isRacing (finishRace True n lr s) = False"
  "user (finishRace c n lr s) = user s"
  "raceStartTime (finishRace c n lr s) = raceStartTime s"
  "locationSubscription (finishRace c n lr s) = locationSubscription s"
  "pendingWatch (finishRace c n lr s) = pendingWatch s"
  "socketRef s \<Longrightarrow> socketRef (finishRace c n lr s)"
  by (simp_all add: finishRace_def Let_def loadRaceData_socketRef split: option.splits)

lemma finishRace_cancel: "finishRace False n lr s = emit [Alert ''Finish Race''] s"
  by (simp add: finishRace_def)

lemma startRaceAsCreator_fields [simp]:
  "race (startRaceAsCreator resp s) = race s" "circuit (startRaceAsCreator resp s) = circuit s"
  "leaderboard (startRaceAsCreator resp s) = leaderboard s"
  "loading (startRaceAsCreator resp s) = loading s"
  "isRacing (startRaceAsCreator resp s) = isRacing s"
  "raceStartTime (startRaceAsCreator resp s) = raceStartTime s"
  "socketRef (startRaceAsCreator resp s) = socketRef s"
  "locationSubscription (startRaceAsCreator resp s) = locationSubscription s"
  "pendingWatch (startRaceAsCreator resp s) = pendingWatch s"
  "user (startRaceAsCreator resp s) = user s"
  by (simp_all add: startRaceAsCreator_def Let_def split: sum.splits)

lemma joinRace_fields [simp]:
  "isRacing (joinRace resp lr s) = isRacing s"
  "raceStartTime (joinRace resp lr s) = raceStartTime s"
  "locationSubscription (joinRace resp lr s) = locationSubscription s"
  "pendingWatch (joinRace resp lr s) = pendingWatch s"
  "user (joinRace resp lr s) = user s"
  "loading s = False \<Longrightarrow> loading (joinRace resp lr s) = False"
  "socketRef s \<Longrightarrow> socketRef (joinRace resp lr s)"
  by (simp_all add: joinRace_def joinRace_resume_def joinRace_send_def loadRaceData_socketRef
        split: sum.splits)

lemma step_socketRef: "socketRef s \<Longrightarrow> socketRef (step x s)"
  by (cases x)
     (auto simp: on_connect_def on_participant_position_def on_participant_finished_def
        loadRaceData_socketRef)

lemma step_loading: "\<not> loading s \<Longrightarrow> \<not> loading (step x s)"
  by (cases x)
     (auto simp: on_connect_def on_participant_position_def on_participant_finished_def
        finishRace_def Let_def split: option.splits)

lemma step_racing:
  "socketRef s \<Longrightarrow> isRacing s \<longrightarrow> raceStartTime s \<noteq> None \<Longrightarrow>
   isRacing (step x s) \<longrightarrow> raceStartTime (step x s) \<noteq> None"
  by (cases x)
     (auto simp: on_connect_def on_participant_position_def on_participant_finished_def
        finishRace_def Let_def split: option.splits)

lemma session_inv_step: "session_inv s \<Longrightarrow> session_inv (step x s)"
proof (cases "socketRef s")
  case True
  assume "session_inv s"
  with True step_socketRef [OF True, of x] step_loading [of s x] step_racing [of s x]
  show ?thesis by (simp add: session_inv_def)
next
  case False
  assume "session_inv s"
  with False have "buttons s = []" "pendingWatch s = 0" by (auto simp: session_inv_def)
  with False have "step x s = s" by (simp add: step_without_socket)
  with \<open>session_inv s\<close> show ?thesis by simp
qed

lemma session_inv_steps: "session_inv s \<Longrightarrow> session_inv (steps xs s)"
  by (induction xs arbitrary: s) (simp_all add: session_inv_step)

lemma session_inv_first_load: "session_inv (loadRaceData lr (init u))"
  by (auto simp: session_inv_def loadRaceData_socketRef buttons_def loadRaceData_race
        loadRaceData_circuit init_def canStart_def
        split: sum.splits option.splits status.splits if_splits)

lemma session_inv_run: "session_inv (run u lr0 xs)"
  unfolding run_def by (intro session_inv_steps session_inv_first_load)

lemma button_conditions:
  "JoinRace \<in> set (buttons s) \<longleftrightarrow>
     \<not> loading s \<and> (\<exists>r c. race s = Some r \<and> circuit s = Some c \<and>
                        status r = Waiting \<and> \<not> hasJoined r (user s))"
  "StartRace \<in> set (buttons s) \<longleftrightarrow>
     \<not> loading s \<and> (\<exists>r c. race s = Some r \<and> circuit s = Some c \<and> canStart r (user s))"
  "BeginRacing \<in> set (buttons s) \<longleftrightarrow>
     \<not> loading s \<and> (\<exists>r c. race s = Some r \<and> circuit s = Some c \<and>
                        status r = Active \<and> hasJoined r (user s) \<and> \<not> isRacing s)"
  "FinishRace \<in> set (buttons s) \<longleftrightarrow>
     \<not> loading s \<and> (\<exists>r c. race s = Some r \<and> circuit s = Some c) \<and> isRacing s"
  by (cases "race s"; cases "circuit s"; auto simp: buttons_def)+

lemma button_socket:
  "session_inv s \<Longrightarrow> b \<in> set (buttons s) \<Longrightarrow> socketRef s"
  by (auto simp: session_inv_def)

text \<open>The definitions that evaluate a run on sample data.\<close>

lemmas eval_defs =
  run_def steps_def init_def loadRaceData_def emit_def connectWebSocket_def Let_def
  buttons_def hasJoined_def canStart_def isCreator_def local_status_def
  sample_load_def sample_race_def

section \<open>The claim on the channel\<close>

text \<open>
  C10. A session opens its socket at most once, whatever happens after the first
  load: \<open>connectWebSocket\<close> does nothing when \<open>socketRef\<close> is set, so calling it
  twice is calling it once, although every reload calls it again.
\<close>

theorem one_channel:
  "socket_opens (effects (run u lr0 xs)) \<le> 1 \<and>
   connectWebSocket (connectWebSocket s) = connectWebSocket s \<and>
   (socketRef s \<longrightarrow> connectWebSocket s = s)"
proof -
  have "socket_opens (effects (run u lr0 xs)) \<le> 1"
    using opened_once_run [of u lr0 xs] by (simp add: opened_once_def split: if_splits)
  moreover have "connectWebSocket (connectWebSocket s) = connectWebSocket s"
    by (simp add: connectWebSocket_def emit_def)
  moreover have "socketRef s \<longrightarrow> connectWebSocket s = s"
    by (simp add: connectWebSocket_def)
  ultimately show ?thesis by simp
qed

theorem one_channel_witness:
  "socketRef (run (Some 7) (sample_load Active [5, 7])
                [ParticipantFinished 5 (sample_load Active [5, 7])]) \<and>
   connectWebSocket (run (Some 7) (sample_load Active [5, 7])
                [ParticipantFinished 5 (sample_load Active [5, 7])])
     = run (Some 7) (sample_load Active [5, 7])
                [ParticipantFinished 5 (sample_load Active [5, 7])] \<and>
   socket_opens (effects (run (Some 7) (sample_load Active [5, 7])
                [ParticipantFinished 5 (sample_load Active [5, 7])])) = 1"
  using one_channel [of "Some 7" "sample_load Active [5, 7]"
                        "[ParticipantFinished 5 (sample_load Active [5, 7])]"
                        "run (Some 7) (sample_load Active [5, 7])
                           [ParticipantFinished 5 (sample_load Active [5, 7])]"]
  by (simp add: run_def init_def on_participant_finished_def loadRaceData_def emit_def
        connectWebSocket_def Let_def)

section \<open>The claims on the actions\<close>

text \<open>
  C4. Joining is possible only while the race is waiting. The \<open>Join Race\<close> button, the
  only caller of \<open>joinRace\<close>, is rendered only for a waiting race; where it is
  rendered a press sends the join request; and in a session whose race is not waiting
  a press on it changes nothing, so no request is sent. (\<open>joinRace\<close> has no check of
  its own: the condition is the one of the rendering.)
\<close>

theorem join_only_while_waiting:
  "(JoinRace \<in> set (buttons s) \<longrightarrow> local_status s = Some Waiting) \<and>
   (JoinRace \<in> set (buttons s) \<longrightarrow>
      HttpPost_join \<in> set (effects (step (TapJoin resp lr) s))) \<and>
   (local_status s \<noteq> Some Waiting \<longrightarrow> step (TapJoin resp lr) s = s)"
proof -
  have a: "local_status s = Some Waiting" if "JoinRace \<in> set (buttons s)"
    using that by (auto simp: button_conditions local_status_def)
  have b: "HttpPost_join \<in> set (effects (step (TapJoin resp lr) s))"
    if "JoinRace \<in> set (buttons s)"
    using that
    by (auto simp: joinRace_def joinRace_send_def joinRace_resume_def loadRaceData_def Let_def
          split: sum.splits)
  from a have c: "step (TapJoin resp lr) s = s" if "local_status s \<noteq> Some Waiting"
    using that by auto
  from a b c show ?thesis by blast
qed

theorem join_only_while_waiting_witness:
  "JoinRace \<in> set (buttons (run (Some 9) (sample_load Waiting [5, 7]) [])) \<and>
   local_status (run (Some 9) (sample_load Waiting [5, 7]) []) = Some Waiting \<and>
   HttpPost_join \<in> set (effects (step (TapJoin (Inr ()) (sample_load Waiting [5, 7, 9]))
                                   (run (Some 9) (sample_load Waiting [5, 7]) []))) \<and>
   local_status (run (Some 9) (sample_load Active [5, 7]) []) \<noteq> Some Waiting \<and>
   step (TapJoin (Inr ()) (sample_load Active [5, 7, 9]))
        (run (Some 9) (sample_load Active [5, 7]) [])
     = run (Some 9) (sample_load Active [5, 7]) []"
proof -
  have w: "JoinRace \<in> set (buttons (run (Some 9) (sample_load Waiting [5, 7]) []))"
    by (simp add: run_def init_def loadRaceData_def emit_def connectWebSocket_def Let_def
          buttons_def hasJoined_def)
  have a: "local_status (run (Some 9) (sample_load Active [5, 7]) []) \<noteq> Some Waiting"
    by (simp add: run_def init_def loadRaceData_def emit_def connectWebSocket_def Let_def
          local_status_def)
  from w a
    join_only_while_waiting [of "run (Some 9) (sample_load Waiting [5, 7]) []"
                                "Inr ()" "sample_load Waiting [5, 7, 9]"]
    join_only_while_waiting [of "run (Some 9) (sample_load Active [5, 7]) []"
                                "Inr ()" "sample_load Active [5, 7, 9]"]
  show ?thesis by blast
qed

text \<open>
  C2. In every session, the \<open>Start Race\<close> button, the only caller of
  \<open>startRaceAsCreator\<close>, is rendered exactly for the creator of a waiting race with at
  least one participant, once the screen has loaded; without it a press changes
  nothing. With it, a press whose request succeeds sends the start request and leaves
  the race as it was, so the status is still waiting; the \<open>race_started\<close> event then
  makes it active.
\<close>

theorem start_offered_and_status_kept:
  assumes "s = run u lr0 xs"
  shows "(StartRace \<in> set (buttons s) \<longleftrightarrow>
            \<not> loading s \<and>
            (\<exists>r c. race s = Some r \<and> circuit s = Some c \<and> Some (creator_id r) = user s \<and>
                   status r = Waiting \<and> 1 \<le> length (participants r))) \<and>
         (StartRace \<notin> set (buttons s) \<longrightarrow> step (TapStart resp) s = s) \<and>
         (StartRace \<in> set (buttons s) \<longrightarrow>
            effects (step (TapStart (Inr ())) s) = effects s @ [HttpPost_start] \<and>
            race (step (TapStart (Inr ())) s) = race s \<and>
            local_status (step (TapStart (Inr ())) s) = Some Waiting \<and>
            local_status (step (RaceStarted granted now) (step (TapStart (Inr ())) s))
              = Some Active)"
proof -
  have inv: "session_inv s" unfolding assms by (rule session_inv_run)
  have g: "StartRace \<in> set (buttons s) \<longleftrightarrow>
            \<not> loading s \<and>
            (\<exists>r c. race s = Some r \<and> circuit s = Some c \<and> Some (creator_id r) = user s \<and>
                   status r = Waiting \<and> 1 \<le> length (participants r))"
    by (auto simp: button_conditions canStart_def isCreator_def Suc_le_eq)
  have n: "step (TapStart resp) s = s" if "StartRace \<notin> set (buttons s)"
    using that by simp
  have y: "effects (step (TapStart (Inr ())) s) = effects s @ [HttpPost_start] \<and>
           race (step (TapStart (Inr ())) s) = race s \<and>
           local_status (step (TapStart (Inr ())) s) = Some Waiting \<and>
           local_status (step (RaceStarted granted now) (step (TapStart (Inr ())) s))
             = Some Active"
    if b: "StartRace \<in> set (buttons s)"
  proof -
    from inv b have sock: "socketRef s" by (rule button_socket)
    from b obtain r where r: "race s = Some r" "status r = Waiting"
      by (auto simp: button_conditions canStart_def)
    from b sock r show ?thesis
      by (simp add: local_status_def startRaceAsCreator_def emit_def)
  qed
  from g n y show ?thesis by blast
qed

theorem start_offered_and_status_kept_witness:
  "StartRace \<in> set (buttons (run (Some 5) (sample_load Waiting [7]) [])) \<and>
   effects (step (TapStart (Inr ())) (run (Some 5) (sample_load Waiting [7]) []))
     = effects (run (Some 5) (sample_load Waiting [7]) []) @ [HttpPost_start] \<and>
   local_status (step (TapStart (Inr ())) (run (Some 5) (sample_load Waiting [7]) []))
     = Some Waiting \<and>
   local_status (step (RaceStarted False 0)
                   (step (TapStart (Inr ())) (run (Some 5) (sample_load Waiting [7]) [])))
     = Some Active \<and>
   StartRace \<notin> set (buttons (run (Some 5) (sample_load Waiting []) [])) \<and>
   step (TapStart (Inr ())) (run (Some 5) (sample_load Waiting []) [])
     = run (Some 5) (sample_load Waiting []) []"
proof -
  have y: "StartRace \<in> set (buttons (run (Some 5) (sample_load Waiting [7]) []))"
    by (simp add: eval_defs)
  have n: "StartRace \<notin> set (buttons (run (Some 5) (sample_load Waiting []) []))"
    by (simp add: eval_defs)
  from y n
    start_offered_and_status_kept [OF refl, of "Some 5" "sample_load Waiting [7]" "[]" "Inr ()" False 0]
    start_offered_and_status_kept [OF refl, of "Some 5" "sample_load Waiting []" "[]" "Inr ()" False 0]
  show ?thesis by blast
qed

section \<open>Lemmas on the first load\<close>

lemma first_load_failed:
  assumes "isl (raceResponse lr) \<or> isl (leaderboardResponse lr) \<or> isl (circuitResponse lr)"
  shows "\<not> socketRef (loadRaceData lr (init u))"
    and "socket_opens (effects (loadRaceData lr (init u))) = 0"
    and "race (loadRaceData lr (init u)) = None \<or> circuit (loadRaceData lr (init u)) = None"
  using assms
  by (auto simp: loadRaceData_socketRef loadRaceData_race loadRaceData_circuit init_def
        loadRaceData_def Let_def isl_def split: sum.splits)

section \<open>The claim on the first load\<close>

text \<open>
  C5, as amended. After the first load: when the three requests succeed, the socket is
  opened for a waiting or active race and not for a completed one. When a request
  fails, no socket is opened, the screen is \<open>Race not found\<close> and no step changes the
  session. When the race or the leaderboard request fails nothing is stored; when
  only the circuit request fails, the race and the leaderboard that were fetched stay
  stored, without a circuit.
\<close>

theorem first_load_outcomes:
  assumes "s = loadRaceData lr (init u)"
  shows
   "(raceResponse lr = Inr r \<and> leaderboardResponse lr = Inr l \<and> circuitResponse lr = Inr c \<longrightarrow>
       (status r = Waiting \<or> status r = Active \<longrightarrow>
          socketRef s \<and> socket_opens (effects s) = 1) \<and>
       (status r = Completed \<longrightarrow> \<not> socketRef s \<and> socket_opens (effects s) = 0)) \<and>
    (isl (raceResponse lr) \<or> isl (leaderboardResponse lr) \<or> isl (circuitResponse lr) \<longrightarrow>
       \<not> socketRef s \<and> socket_opens (effects s) = 0 \<and> render s = RaceNotFound \<and>
       (\<forall>x. step x s = s)) \<and>
    (isl (raceResponse lr) \<or> isl (leaderboardResponse lr) \<longrightarrow>
       race s = None \<and> leaderboard s = [] \<and> circuit s = None) \<and>
    (raceResponse lr = Inr r \<and> leaderboardResponse lr = Inr l \<and> isl (circuitResponse lr) \<longrightarrow>
       race s = Some r \<and> leaderboard s = l \<and> circuit s = None)"
proof -
  have ok: "(status r = Waiting \<or> status r = Active \<longrightarrow>
               socketRef s \<and> socket_opens (effects s) = 1) \<and>
            (status r = Completed \<longrightarrow> \<not> socketRef s \<and> socket_opens (effects s) = 0)"
    if "raceResponse lr = Inr r" "leaderboardResponse lr = Inr l" "circuitResponse lr = Inr c"
    using that unfolding assms
    by (cases "status r") (simp_all add: loadRaceData_def Let_def init_def)
  have bad: "\<not> socketRef s \<and> socket_opens (effects s) = 0 \<and> render s = RaceNotFound \<and>
             (\<forall>x. step x s = s)"
    if f: "isl (raceResponse lr) \<or> isl (leaderboardResponse lr) \<or> isl (circuitResponse lr)"
  proof -
    note fl = first_load_failed [OF f, of u, folded assms]
    have "\<not> loading s" unfolding assms by simp
    with fl(3) have "render s = RaceNotFound" "buttons s = []"
      by (auto simp: render_def buttons_def split: option.splits)
    moreover have "pendingWatch s = 0" unfolding assms by (simp add: init_def)
    ultimately show ?thesis using fl(1,2) by (simp add: step_without_socket)
  qed
  have none: "race s = None \<and> leaderboard s = [] \<and> circuit s = None"
    if "isl (raceResponse lr) \<or> isl (leaderboardResponse lr)"
    using that unfolding assms
    by (auto simp: loadRaceData_def Let_def init_def isl_def split: sum.splits)
  have part: "race s = Some r \<and> leaderboard s = l \<and> circuit s = None"
    if "raceResponse lr = Inr r" "leaderboardResponse lr = Inr l" "isl (circuitResponse lr)"
    using that unfolding assms
    by (auto simp: loadRaceData_def Let_def init_def isl_def split: sum.splits)
  from ok bad none part show ?thesis by blast
qed

theorem first_load_outcomes_witness:
  "(status (sample_race Waiting [5, 7]) = Waiting \<and>
    socketRef (loadRaceData (sample_load Waiting [5, 7]) (init (Some 7))) \<and>
    socket_opens (effects (loadRaceData (sample_load Waiting [5, 7]) (init (Some 7)))) = 1) \<and>
   (status (sample_race Completed [5, 7]) = Completed \<and>
    \<not> socketRef (loadRaceData (sample_load Completed [5, 7]) (init (Some 7))) \<and>
    socket_opens (effects (loadRaceData (sample_load Completed [5, 7]) (init (Some 7)))) = 0) \<and>
   (isl (raceResponse \<lparr>raceResponse = Inl NotFound, leaderboardResponse = Inl NotFound,
                        circuitResponse = Inl NotFound\<rparr>) \<and>
    race (loadRaceData \<lparr>raceResponse = Inl NotFound, leaderboardResponse = Inl NotFound,
                        circuitResponse = Inl NotFound\<rparr> (init (Some 7))) = None \<and>
    \<not> socketRef (loadRaceData \<lparr>raceResponse = Inl NotFound, leaderboardResponse = Inl NotFound,
                        circuitResponse = Inl NotFound\<rparr> (init (Some 7))) \<and>
    render (loadRaceData \<lparr>raceResponse = Inl NotFound, leaderboardResponse = Inl NotFound,
                        circuitResponse = Inl NotFound\<rparr> (init (Some 7))) = RaceNotFound) \<and>
   (isl (circuitResponse \<lparr>raceResponse = Inr (sample_race Waiting [5]),
                           leaderboardResponse = Inr [],
                           circuitResponse = Inl TransportFailure\<rparr>) \<and>
    race (loadRaceData \<lparr>raceResponse = Inr (sample_race Waiting [5]),
                        leaderboardResponse = Inr [],
                        circuitResponse = Inl TransportFailure\<rparr> (init (Some 7)))
      = Some (sample_race Waiting [5]) \<and>
    render (loadRaceData \<lparr>raceResponse = Inr (sample_race Waiting [5]),
                        leaderboardResponse = Inr [],
                        circuitResponse = Inl TransportFailure\<rparr> (init (Some 7)))
      = RaceNotFound)"
  using
    first_load_outcomes [OF refl, of "sample_load Waiting [5, 7]" "sample_race Waiting [5, 7]"
                           "[]" sample_circuit "Some 7"]
    first_load_outcomes [OF refl, of "sample_load Completed [5, 7]"
                           "sample_race Completed [5, 7]" "[]" sample_circuit "Some 7"]
    first_load_outcomes [OF refl, of "\<lparr>raceResponse = Inl NotFound,
                           leaderboardResponse = Inl NotFound,
                           circuitResponse = Inl NotFound\<rparr>" undefined undefined undefined
                           "Some 7"]
    first_load_outcomes [OF refl, of "\<lparr>raceResponse = Inr (sample_race Waiting [5]),
                           leaderboardResponse = Inr [],
                           circuitResponse = Inl TransportFailure\<rparr>"
                           "sample_race Waiting [5]" "[]" undefined "Some 7"]
  by (simp add: sample_load_def sample_race_def)

text \<open>
  The claim as stated asks for no partial state after any failed request. Here the
  circuit request fails and the session keeps the race and the leaderboard.
\<close>

theorem first_load_partial_state_counterexample:
  "circuitResponse \<lparr>raceResponse = Inr (sample_race Waiting [5]),
                    leaderboardResponse = Inr [\<lparr>entry_user = 5, final_time = None\<rparr>],
                    circuitResponse = Inl NotFound\<rparr> = Inl NotFound \<and>
   race (loadRaceData \<lparr>raceResponse = Inr (sample_race Waiting [5]),
                       leaderboardResponse = Inr [\<lparr>entry_user = 5, final_time = None\<rparr>],
                       circuitResponse = Inl NotFound\<rparr> (init (Some 5)))
     = Some (sample_race Waiting [5]) \<and>
   leaderboard (loadRaceData \<lparr>raceResponse = Inr (sample_race Waiting [5]),
                       leaderboardResponse = Inr [\<lparr>entry_user = 5, final_time = None\<rparr>],
                       circuitResponse = Inl NotFound\<rparr> (init (Some 5)))
     = [\<lparr>entry_user = 5, final_time = None\<rparr>] \<and>
   circuit (loadRaceData \<lparr>raceResponse = Inr (sample_race Waiting [5]),
                       leaderboardResponse = Inr [\<lparr>entry_user = 5, final_time = None\<rparr>],
                       circuitResponse = Inl NotFound\<rparr> (init (Some 5))) = None"
  by (simp add: loadRaceData_def Let_def init_def emit_def)

section \<open>The claim on the \<open>race_started\<close> event\<close>

text \<open>
  The handler of \<open>race_started\<close> calls \<open>startRacing\<close> whoever the user is, while the
  \<open>Begin Racing\<close> button, the other caller, is there only for a user who has joined.
\<close>

lemma race_started_ignores_joining:
  "socketRef s \<Longrightarrow> isRacing (step (RaceStarted True now) s)"
  by simp

lemma begin_racing_needs_joined:
  "BeginRacing \<in> set (buttons s) \<Longrightarrow> \<exists>r. race s = Some r \<and> hasJoined r (user s)"
  by (auto simp: button_conditions)

text \<open>
  C3. User 9 has opened a waiting race whose participants are 5 and 7. The race
  starts and the permission is granted: the status becomes active, and the session of
  user 9, who has not joined, is racing, with the timer running and the position
  watch asked for; when the provider answers, its handle is stored.
\<close>

theorem race_started_starts_racing_without_join:
  "\<not> hasJoined (sample_race Waiting [5, 7]) (Some 9) \<and>
   race (run (Some 9) (sample_load Waiting [5, 7]) [RaceStarted True 1000])
     = Some (sample_race Active [5, 7]) \<and>
   isRacing (run (Some 9) (sample_load Waiting [5, 7]) [RaceStarted True 1000]) \<and>
   timerRunning (run (Some 9) (sample_load Waiting [5, 7]) [RaceStarted True 1000]) \<and>
   WatchPosition \<in> set (effects (run (Some 9) (sample_load Waiting [5, 7])
                                    [RaceStarted True 1000])) \<and>
   pendingWatch (run (Some 9) (sample_load Waiting [5, 7]) [RaceStarted True 1000]) = 1 \<and>
   locationSubscription (run (Some 9) (sample_load Waiting [5, 7])
                           [RaceStarted True 1000, WatchResolved 1]) = Some 1 \<and>
   isRacing (run (Some 9) (sample_load Waiting [5, 7])
               [RaceStarted True 1000, WatchResolved 1])"
  by (simp add: eval_defs on_race_started_def startRacing_def timerRunning_def
        watchResolved_def)

section \<open>The claim on repeated presses\<close>

text \<open>
  \<open>joinRace\<close> sets no flag before its request, and the rendering of its button does
  not change until the answer comes; \<open>createRace\<close> sets \<open>creating\<close>, which disables its
  button.
\<close>

lemma buttons_emit [simp]: "buttons (emit es s) = buttons s"
  by (cases "race s"; cases "circuit s"; simp add: buttons_def)

lemma tapJoin_send_twice:
  "JoinRace \<in> set (buttons s) \<Longrightarrow>
   effects (tapJoin_send (tapJoin_send s)) = effects s @ [HttpPost_join, HttpPost_join]"
  by (simp add: tapJoin_send_def joinRace_send_def)

lemma tapCreateRace_send_twice:
  "\<not> creating s \<Longrightarrow> \<not> cd_loading s \<Longrightarrow> cd_circuit s \<noteq> None \<Longrightarrow>
   cd_effects (tapCreateRace_send (tapCreateRace_send s)) = cd_effects s @ [HttpPost_races (cd_id s)]"
  by (simp add: tapCreateRace_send_def createRace_send_def)

text \<open>
  C8. Two presses on \<open>Join Race\<close> before any answer send two join requests; two
  presses on the create-race button of the circuit screen send one request.
\<close>

theorem double_tap_join_sends_two_requests:
  "effects (tapJoin_send (tapJoin_send (run (Some 9) (sample_load Waiting [5, 7]) [])))
     = effects (run (Some 9) (sample_load Waiting [5, 7]) []) @ [HttpPost_join, HttpPost_join] \<and>
   cd_effects (tapCreateRace_send (tapCreateRace_send sample_detail)) = [HttpPost_races 4]"
  by (simp add: eval_defs tapJoin_send_def joinRace_send_def tapCreateRace_send_def
        createRace_send_def sample_detail_def)

section \<open>The claim on the order of the status\<close>

lemma srank_emit [simp]: "srank (emit es s) = srank s"
  by (simp add: srank_def)

lemma srank_load:
  "fresh_enough s lr \<Longrightarrow> race s' = race s \<Longrightarrow> srank s \<le> srank (loadRaceData lr s')"
  by (auto simp: fresh_enough_def srank_def loadRaceData_race split: sum.splits)

lemma srank_race_started:
  assumes "local_status s \<noteq> Some Completed"
  shows "srank s \<le> srank (on_race_started g n s)"
proof (cases "race s")
  case None
  then show ?thesis by (simp add: srank_def)
next
  case (Some r)
  with assms show ?thesis
    by (cases "status r") (simp_all add: srank_def local_status_def)
qed

lemma srank_step: "orderly x s \<Longrightarrow> srank s \<le> srank (step x s)"
proof (cases x)
  case (RaceStarted g n)
  assume "orderly x s"
  with RaceStarted show ?thesis by (simp add: srank_race_started)
next
  case (ParticipantFinished uid lr)
  assume "orderly x s"
  with ParticipantFinished show ?thesis
    by (simp add: on_participant_finished_def srank_load)
next
  case (TapJoin resp lr)
  assume "orderly x s"
  with TapJoin show ?thesis
    by (cases resp) (simp_all add: joinRace_def joinRace_resume_def joinRace_send_def srank_load)
next
  case (TapFinish c n lr)
  assume "orderly x s"
  with TapFinish show ?thesis
    by (cases c) (simp_all add: finishRace_def Let_def srank_load split: option.splits)
qed (simp_all add: on_connect_def on_participant_position_def srank_def)

lemma srank_steps: "orderly_from s xs \<Longrightarrow> srank s \<le> srank (steps xs s)"
proof (induction xs arbitrary: s)
  case Nil
  show ?case by simp
next
  case (Cons x xs)
  then have "srank s \<le> srank (step x s)" "srank (step x s) \<le> srank (steps xs (step x s))"
    by (simp_all add: srank_step)
  then show ?case by simp
qed

lemma orderly_from_append:
  "orderly_from s (xs @ ys) \<longleftrightarrow> orderly_from s xs \<and> orderly_from (steps xs s) ys"
  by (induction xs arbitrary: s) simp_all

text \<open>
  C7, as amended. Along the steps of a session in which every reload fetches a race
  that is not behind the status the session shows, and in which no \<open>race_started\<close>
  event comes after the session shows the race as completed, the status never goes
  back: its rank after any number of steps is at most its rank after more steps.
\<close>

theorem status_never_regresses_when_orderly:
  "orderly_from (run u lr0 []) (xs @ ys) \<Longrightarrow> srank (run u lr0 xs) \<le> srank (run u lr0 (xs @ ys))"
  by (simp add: run_def orderly_from_append srank_steps)

theorem status_never_regresses_when_orderly_witness:
  "orderly_from (run (Some 7) (sample_load Waiting [5, 7]) [])
     ([RaceStarted False 0] @ [ParticipantFinished 5 (sample_load Completed [5, 7])]) \<and>
   srank (run (Some 7) (sample_load Waiting [5, 7]) [RaceStarted False 0]) = 1 \<and>
   srank (run (Some 7) (sample_load Waiting [5, 7])
            ([RaceStarted False 0] @ [ParticipantFinished 5 (sample_load Completed [5, 7])])) = 2"
proof -
  have o: "orderly_from (run (Some 7) (sample_load Waiting [5, 7]) [])
     ([RaceStarted False 0] @ [ParticipantFinished 5 (sample_load Completed [5, 7])])"
    by (simp add: eval_defs fresh_enough_def srank_def on_race_started_def startRacing_def)
  have a: "srank (run (Some 7) (sample_load Waiting [5, 7]) [RaceStarted False 0]) = 1"
    by (simp add: eval_defs srank_def on_race_started_def startRacing_def)
  have b: "srank (run (Some 7) (sample_load Waiting [5, 7])
            ([RaceStarted False 0] @ [ParticipantFinished 5 (sample_load Completed [5, 7])])) = 2"
    by (simp add: eval_defs srank_def on_race_started_def startRacing_def
          on_participant_finished_def)
  from status_never_regresses_when_orderly [OF o] o a b show ?thesis by simp
qed

text \<open>
  The claim as stated holds for every sequence of events and reloads. Here a reload
  has shown the race as completed, a \<open>race_started\<close> event follows, and the handler
  writes \<open>active\<close> over it.
\<close>

theorem status_regresses_counterexample:
  "local_status (run (Some 7) (sample_load Active [5, 7])
                   [ParticipantFinished 5 (sample_load Completed [5, 7])]) = Some Completed \<and>
   local_status (run (Some 7) (sample_load Active [5, 7])
                   [ParticipantFinished 5 (sample_load Completed [5, 7]), RaceStarted False 0])
     = Some Active"
  by (simp add: eval_defs on_race_started_def startRacing_def on_participant_finished_def)

section \<open>The claim on finishing\<close>

lemma removals_append [simp]: "removals (xs @ ys) = removals xs @ removals ys"
  by (induction xs rule: removals.induct) simp_all

lemma loadRaceData_effects:
  "\<exists>es. effects (loadRaceData lr s) = effects s @ es \<and> final_times es = [] \<and>
        removals es = []"
  by (auto simp: loadRaceData_def Let_def split: sum.splits)

lemma loadRaceData_final_times [simp]:
  "final_times (effects (loadRaceData lr s)) = final_times (effects s)"
  using loadRaceData_effects [of lr s] by auto

lemma loadRaceData_removals [simp]:
  "removals (effects (loadRaceData lr s)) = removals (effects s)"
  using loadRaceData_effects [of lr s] by auto

lemma finalTime_exact:
  assumes "0 \<le> t0" "t0 \<le> 2 ^ 51" "0 \<le> now" "now \<le> 2 ^ 51"
  shows "finalTime now (Some t0) = rnd (real_of_int (now - t0) / 1000)"
proof -
  have "\<bar>now - t0\<bar> \<le> 2 ^ 53" using assms by simp
  from rnd_int [OF this] show ?thesis
    by (simp add: finalTime_def fsub_def)
qed

lemma finalTime_2500: "finalTime 3500 (Some 1000) = Fin (5 / 2)"
proof -
  have "rnd (5 / 2) = Fin (5 / 2)"
    by (rule rnd_near [where e = 1 and m = "5 * 2 ^ 50"]) simp_all
  then show ?thesis using finalTime_exact [of 1000 3500] by simp
qed

lemma finalTime_negative: "finalTime 1500 (Some 3000) = Fin (- (3 / 2))"
proof -
  have "rnd (- (3 / 2)) = Fin (- (3 / 2))"
    by (rule rnd_near [where e = 0 and m = "- (3 * 2 ^ 51)"]) simp_all
  then show ?thesis using finalTime_exact [of 3000 1500] by simp
qed

lemma finalTime_sign:
  assumes "0 \<le> t0" "t0 \<le> 2 ^ 51" "0 \<le> now" "now \<le> 2 ^ 51"
  shows "\<exists>y. finalTime now (Some t0) = Fin y \<and> rnd (real_of_int (now - t0) / 1000) = Fin y \<and>
             (0 \<le> y \<longleftrightarrow> t0 \<le> now)"
proof -
  have n: "\<bar>now - t0\<bar> \<le> 2 ^ 51" using assms by simp
  from millis_relative [OF n] obtain y where y: "rnd (real_of_int (now - t0) / 1000) = Fin y"
    by blast
  from millis_sign [OF n y] have "0 \<le> y \<longleftrightarrow> t0 \<le> now" by simp
  with y finalTime_exact [OF assms] show ?thesis by simp
qed

lemma finalTime_strict:
  assumes "0 \<le> t0" "t0 \<le> 2 ^ 51" "0 \<le> now" "now < later" "later \<le> 2 ^ 51"
  shows "\<exists>y z. finalTime now (Some t0) = Fin y \<and> finalTime later (Some t0) = Fin z \<and> y < z"
proof -
  have n: "\<bar>now - t0\<bar> \<le> 2 ^ 51" and m: "\<bar>later - t0\<bar> \<le> 2 ^ 51"
    and lt: "now - t0 < later - t0"
    using assms by simp_all
  from millis_relative [OF n] obtain y where y: "rnd (real_of_int (now - t0) / 1000) = Fin y"
    by blast
  from millis_relative [OF m] obtain z where z: "rnd (real_of_int (later - t0) / 1000) = Fin z"
    by blast
  have a: "finalTime now (Some t0) = Fin y"
    using finalTime_exact [of t0 now] assms y by simp
  have b: "finalTime later (Some t0) = Fin z"
    using finalTime_exact [of t0 later] assms z by simp
  from millis_strict [OF n m lt y z] a b show ?thesis by blast
qed

lemma finishRace_confirmed:
  assumes "socketRef s" "raceStartTime s = Some t0"
  shows "final_times (effects (finishRace True now lr s))
           = final_times (effects s) @ [finalTime now (Some t0)]"
    and "removals (effects (finishRace True now lr s))
           = removals (effects s) @ (case locationSubscription s of None \<Rightarrow> [] | Some h \<Rightarrow> [h])"
    and "\<not> isRacing (finishRace True now lr s)"
    and "\<not> timerRunning (finishRace True now lr s)"
  using assms by (simp_all add: finishRace_def Let_def timerRunning_def split: option.splits)

text \<open>A session that shows the \<open>Finish Race\<close> button has a start time.\<close>

lemma finish_button_has_start_time:
  "FinishRace \<in> set (buttons (run u lr0 xs)) \<Longrightarrow> \<exists>t0. raceStartTime (run u lr0 xs) = Some t0"
  using session_inv_run [of u lr0 xs] by (auto simp: session_inv_def button_conditions)




end
